theory Spec2Isabelle
  imports Complex_Main "HOL-Library.Product_Lexorder"
begin

section \<open>Python values\<close>

text \<open>
  A Python \<open>str\<close> is a sequence of Unicode code points, so it is modelled as a list of
  natural numbers (one per code point), not as a list of bytes. \<open>U\<close> turns an ASCII literal
  into such a list.
\<close>

type_synonym ustr = "nat list"

definition U :: "string \<Rightarrow> ustr" where
  "U s = map of_char s"

text \<open>
  A Python \<open>float\<close> is a finite binary fraction \<open>m * 2 ^ e\<close>, an infinity or a NaN
  (\<open>json.loads\<close> accepts \<open>Infinity\<close>, \<open>-Infinity\<close> and \<open>NaN\<close>).
\<close>

datatype pyfloat = Finite int int | PosInf | NegInf | NaN

text \<open>
  The values \<open>json.loads\<close> / \<open>r.json()\<close> can return. \<open>JNull\<close> is Python's \<open>None\<close>; a
  \<open>dict\<close> is an association list read with \<open>map_of\<close>.
\<close>

datatype json =
    JNull
  | JBool bool
  | JInt int
  | JFloat pyfloat
  | JStr ustr
  | JList "json list"
  | JDict "(ustr \<times> json) list"

datatype py_error =
    AttributeError | TypeError | ValueError | OverflowError | JSONDecodeError

text \<open>Truth value testing, as \<open>bool(x)\<close>, \<open>if x\<close>, \<open>not x\<close> and \<open>x or y\<close> use it.\<close>

fun truthy :: "json \<Rightarrow> bool" where
  "truthy JNull = False"
| "truthy (JBool b) = b"
| "truthy (JInt i) = (i \<noteq> 0)"
| "truthy (JFloat (Finite m e)) = (m \<noteq> 0)"
| "truthy (JFloat f) = True"
| "truthy (JStr s) = (s \<noteq> [])"
| "truthy (JList xs) = (xs \<noteq> [])"
| "truthy (JDict d) = (d \<noteq> [])"

definition py_or :: "json \<Rightarrow> json \<Rightarrow> json" where
  "py_or a b = (if truthy a then a else b)"

text \<open>\<open>d.get(k)\<close> and \<open>d.get(k, default)\<close> on a dict.\<close>

definition dict_get_default :: "(ustr \<times> json) list \<Rightarrow> ustr \<Rightarrow> json \<Rightarrow> json" where
  "dict_get_default d k dflt = (case map_of d k of Some v \<Rightarrow> v | None \<Rightarrow> dflt)"

definition dict_get :: "(ustr \<times> json) list \<Rightarrow> ustr \<Rightarrow> json" where
  "dict_get d k = dict_get_default d k JNull"

text \<open>
  \<open>for c in x\<close>: a list yields its elements, a dict its keys, a string its characters;
  anything else raises \<open>TypeError\<close>.
\<close>

fun py_iter :: "json \<Rightarrow> py_error + json list" where
  "py_iter (JList xs) = Inr xs"
| "py_iter (JDict d) = Inr (map (\<lambda>k. JStr k) (remdups (map fst d)))"
| "py_iter (JStr s) = Inr (map (\<lambda>c. JStr [c]) s)"
| "py_iter v = Inl TypeError"

text \<open>\<open>sep.join(parts)\<close>.\<close>

fun join :: "ustr \<Rightarrow> ustr list \<Rightarrow> ustr" where
  "join sep [] = []"
| "join sep [x] = x"
| "join sep (x # y # ys) = x @ sep @ join sep (y # ys)"

text \<open>\<open>str(n)\<close> of a natural number, \<open>str(i)\<close> of an integer, and \<open>s.zfill(w)\<close>.\<close>

fun nat_digits :: "nat \<Rightarrow> ustr" where
  "nat_digits n = (if n < 10 then [48 + n] else nat_digits (n div 10) @ [48 + n mod 10])"

declare nat_digits.simps [simp del]

definition str_int :: "int \<Rightarrow> ustr" where
  "str_int i = (if i < 0 then 45 # nat_digits (nat (- i)) else nat_digits (nat i))"

definition zfill :: "nat \<Rightarrow> ustr \<Rightarrow> ustr" where
  "zfill w s = replicate (w - length s) 48 @ s"

section \<open>Library behaviour taken as a parameter\<close>

text \<open>
  The page a parsed document stands for: the result of each XPath query the extractor
  evaluates on it, and its text rendering (\<open>None\<close> when \<open>lxml.html.tostring\<close> raises).
\<close>

record page =
  h1_text :: "ustr list"
  meta_description :: "ustr list"
  p_description :: "ustr list"
  text_content :: "ustr option"
  actress_links :: "ustr list"
  profile_links :: "ustr list"
  theme_links :: "ustr list"
  play_links :: "ustr list"
  photopc_img :: "ustr list"
  package_img :: "ustr list"
  og_image :: "ustr list"
  maker_text :: "ustr list"
  canonical_href :: "ustr list"
  og_url :: "ustr list"

text \<open>
  What the code takes from the Python runtime and from lxml and which is not spelled out
  here: the rendering \<open>format(v)\<close> of a value inside an f-string, the Unicode table of
  decimal digits (the value of a code point that \<open>\d\<close> matches and \<open>int\<close> reads),
  \<open>str.upper\<close>, the platform's rendering of \<open>%Y\<close> in \<open>strftime\<close>, \<open>int(s)\<close> of a string
  (\<open>None\<close> when it raises \<open>ValueError\<close>), and \<open>lxml.html.fromstring\<close> (\<open>None\<close> when it
  raises).
\<close>

record pylib =
  py_format :: "json \<Rightarrow> ustr"
  decimal :: "nat \<Rightarrow> nat option"
  upper :: "ustr \<Rightarrow> ustr"
  strftime_Y :: "nat \<Rightarrow> ustr"
  int_of_str :: "ustr \<Rightarrow> int option"
  fromstring :: "ustr \<Rightarrow> page option"

section \<open>Session cache: the cookie header\<close>

text \<open>
  \<open>build_cookie_header_from_list\<close> (the same in both scrapers). The loop over the cookies
  carries \<open>parts\<close>; an entry that is not a dict has no \<open>get\<close> and raises.
\<close>

fun cookie_parts :: "pylib \<Rightarrow> json list \<Rightarrow> ustr list \<Rightarrow> py_error + ustr list" where
  "cookie_parts L [] parts = Inr parts"
| "cookie_parts L (JDict c # cs) parts =
     (let name = dict_get c (U ''name'');
          val = dict_get c (U ''value'')
      in if truthy name \<and> val \<noteq> JNull
         then cookie_parts L cs (parts @ [py_format L name @ U ''='' @ py_format L val])
         else cookie_parts L cs parts)"
| "cookie_parts L (c # cs) parts = Inl AttributeError"

definition build_cookie_header_from_list :: "pylib \<Rightarrow> json \<Rightarrow> py_error + ustr option" where
  "build_cookie_header_from_list L cookies =
     (case py_iter cookies of
        Inl e \<Rightarrow> Inl e
      | Inr cs \<Rightarrow>
          (case cookie_parts L cs [] of
             Inl e \<Rightarrow> Inl e
           | Inr parts \<Rightarrow> Inr (if parts \<noteq> [] then Some (join (U ''; '') parts) else None)))"

definition is_dict :: "json \<Rightarrow> bool" where
  "is_dict v = (case v of JDict d \<Rightarrow> True | _ \<Rightarrow> False)"

definition valid_cookie :: "json \<Rightarrow> bool" where
  "valid_cookie c = (case c of JDict d \<Rightarrow> truthy (dict_get d (U ''name'')) \<and> dict_get d (U ''value'') \<noteq> JNull | _ \<Rightarrow> False)"

definition cookie_pair :: "pylib \<Rightarrow> json \<Rightarrow> ustr" where
  "cookie_pair L c = (case c of JDict d \<Rightarrow> py_format L (dict_get d (U ''name'')) @ U ''='' @ py_format L (dict_get d (U ''value'')) | _ \<Rightarrow> [])"

section \<open>Bot-protection fetch client\<close>

text \<open>
  What \<open>requests.post\<close> hands back: either it raises (connection error, timeout, ...; the
  text is \<open>str(e)\<close>), or it returns a response with a status code, the body text
  \<open>r.text\<close>, the value of \<open>r.json()\<close> (\<open>None\<close> when the body is not JSON and
  \<open>r.json()\<close> raises) and the message of the \<open>HTTPError\<close> that
  \<open>raise_for_status\<close> builds for it.
\<close>

record response =
  status_code :: nat
  r_text :: ustr
  r_json :: "json option"
  http_error_message :: ustr

datatype http_reply = RequestException ustr | Responded response

text \<open>\<open>r.raise_for_status()\<close> raises for the client and server error codes only.\<close>

definition raise_for_status :: "response \<Rightarrow> ustr + response" where
  "raise_for_status r =
     (if 400 \<le> status_code r \<and> status_code r < 600 then Inl (http_error_message r) else Inr r)"

text \<open>The first \<open>try\<close> block: \<open>Inl\<close> carries \<open>str(e)\<close> of the exception caught.\<close>

definition post_checked :: "http_reply \<Rightarrow> ustr + response" where
  "post_checked reply =
     (case reply of RequestException msg \<Rightarrow> Inl msg | Responded r \<Rightarrow> raise_for_status r)"

record fetch_result =
  ok :: bool
  status :: json
  html :: json
  cookies :: json
  raw :: json

text \<open>
  The shape probing of \<open>fetch_via_flaresolverr\<close> (identical in both scrapers), as the triple
  \<open>(html_content, cookies, status)\<close>: first the branch on \<open>sol\<close>, then the retry on
  \<open>data.get("response")\<close> when no HTML was found. The construction of the request payload
  precedes the \<open>try\<close> block and does not influence the result.
\<close>

definition probe_solution :: "json \<Rightarrow> json \<times> json \<times> json" where
  "probe_solution sol =
     (case sol of
        JDict sd \<Rightarrow>
          (let resp = dict_get sd (U ''response'') in
           case resp of
             JDict rd \<Rightarrow>
               (py_or (dict_get rd (U ''data''))
                  (py_or (dict_get rd (U ''content'')) (py_or (dict_get rd (U ''html'')) JNull)),
                py_or (dict_get rd (U ''cookies'')) (py_or (dict_get sd (U ''cookies'')) (JList [])),
                py_or (dict_get rd (U ''status'')) (py_or (dict_get sd (U ''status'')) JNull))
           | JStr s \<Rightarrow>
               (resp,
                py_or (dict_get sd (U ''cookies'')) (JList []),
                py_or (dict_get sd (U ''status'')) JNull)
           | _ \<Rightarrow>
               (py_or (dict_get sd (U ''data''))
                  (py_or (dict_get sd (U ''content'')) (py_or (dict_get sd (U ''html'')) JNull)),
                py_or (dict_get sd (U ''cookies'')) (JList []),
                py_or (dict_get sd (U ''status'')) JNull))
      | JStr s \<Rightarrow> (sol, JList [], JNull)
      | _ \<Rightarrow> (JNull, JList [], JNull))"

definition probe_response :: "(ustr \<times> json) list \<Rightarrow> json \<times> json \<times> json \<Rightarrow> json \<times> json \<times> json" where
  "probe_response dd hcs =
     (case hcs of (html_content, cks, st) \<Rightarrow>
        if \<not> truthy html_content then
          (let resp2 = dict_get dd (U ''response'') in
           case resp2 of
             JDict rd \<Rightarrow>
               (py_or (dict_get rd (U ''content''))
                  (py_or (dict_get rd (U ''data'')) (py_or (dict_get rd (U ''html'')) html_content)),
                py_or (dict_get rd (U ''cookies'')) cks,
                py_or (dict_get rd (U ''status'')) st)
           | JStr s \<Rightarrow> (resp2, cks, st)
           | _ \<Rightarrow> (html_content, cks, st))
        else (html_content, cks, st))"

definition probe_shapes :: "json \<Rightarrow> json \<times> json \<times> json" where
  "probe_shapes data =
     (case data of
        JDict dd \<Rightarrow>
          (let sol = py_or (dict_get dd (U ''solution'')) (py_or (dict_get dd (U ''response'')) data)
           in probe_response dd (probe_solution sol))
      | _ \<Rightarrow> (JNull, JList [], JNull))"

definition fetch_via_flaresolverr :: "http_reply \<Rightarrow> fetch_result" where
  "fetch_via_flaresolverr reply =
     (case post_checked reply of
        Inl msg \<Rightarrow>
          \<lparr>ok = False, status = JNull, html = JNull, cookies = JList [],
           raw = JDict [(U ''error'', JStr msg)]\<rparr>
      | Inr r \<Rightarrow>
          (case r_json r of
             None \<Rightarrow>
               \<lparr>ok = False, status = JNull, html = JStr (r_text r), cookies = JList [],
                raw = JStr (r_text r)\<rparr>
           | Some data \<Rightarrow>
               (case probe_shapes data of (html_content, cks, st) \<Rightarrow>
                  \<lparr>ok = truthy html_content, status = st, html = html_content, cookies = cks,
                   raw = data\<rparr>)))"

section \<open>Strings and regular expressions\<close>

text \<open>
  The code points for which \<open>str.isspace\<close> holds; \<open>str.strip()\<close> and the class \<open>\s\<close>
  of \<open>re\<close> both use this set.
\<close>

definition py_isspace :: "nat \<Rightarrow> bool" where
  "py_isspace c = (c \<in> set [9, 10, 11, 12, 13, 28, 29, 30, 31, 32, 133, 160, 5760, 8192, 8193, 8194,
      8195, 8196, 8197, 8198, 8199, 8200, 8201, 8202, 8232, 8233, 8239, 8287, 12288])"

definition strip :: "ustr \<Rightarrow> ustr" where
  "strip s = rev (dropWhile py_isspace (rev (dropWhile py_isspace s)))"

text \<open>
  The patterns of this program are sequences of character classes with a greedy quantifier
  \<open>{lo,hi}\<close> (\<open>hi = None\<close> for \<open>*\<close> and \<open>+\<close>), a lazy \<open>*?\<close>, and \<open>$\<close>. \<open>rx_match\<close>
  is the backtracking matcher at one start position: it tries the lengths of each item in
  the order \<open>re\<close> does (longest first for a greedy item, shortest first for a lazy one)
  and returns the lengths consumed by the items of the first complete match.
\<close>

datatype atom =
    Rep "nat \<Rightarrow> bool" nat "nat option"
  | Lazy "nat \<Rightarrow> bool"
  | Eos

fun first_some :: "('a \<Rightarrow> 'b option) \<Rightarrow> 'a list \<Rightarrow> 'b option" where
  "first_some f [] = None"
| "first_some f (k # ks) = (case f k of Some r \<Rightarrow> Some r | None \<Rightarrow> first_some f ks)"

fun rx_match :: "atom list \<Rightarrow> ustr \<Rightarrow> nat list option" where
  "rx_match [] s = Some []"
| "rx_match (Eos # as) s =
     (if s = [] \<or> s = [10] then map_option ((#) 0) (rx_match as s) else None)"
| "rx_match (Rep cls lo hi # as) s =
     (let n = length (takeWhile cls s);
          m = (case hi of None \<Rightarrow> n | Some h \<Rightarrow> min h n)
      in first_some (\<lambda>k. map_option ((#) k) (rx_match as (drop k s))) (rev [lo ..< Suc m]))"
| "rx_match (Lazy cls # as) s =
     (let n = length (takeWhile cls s)
      in first_some (\<lambda>k. map_option ((#) k) (rx_match as (drop k s))) [0 ..< Suc n])"

definition lit :: "nat \<Rightarrow> atom" where "lit c = Rep (\<lambda>x. x = c) 1 (Some 1)"
definition star :: "(nat \<Rightarrow> bool) \<Rightarrow> atom" where "star cls = Rep cls 0 None"
definition plus :: "(nat \<Rightarrow> bool) \<Rightarrow> atom" where "plus cls = Rep cls 1 None"

text \<open>
  \<open>re.sub(p, '', s)\<close> for a pattern that starts with \<open>^\<close> (only position 0 can match),
  and for an unanchored one (matches are searched left to right and do not overlap).
\<close>

definition re_sub_bol :: "atom list \<Rightarrow> ustr \<Rightarrow> ustr" where
  "re_sub_bol p s = (case rx_match p s of Some ls \<Rightarrow> drop (sum_list ls) s | None \<Rightarrow> s)"

fun re_sub :: "atom list \<Rightarrow> ustr \<Rightarrow> ustr" where
  "re_sub p [] = []"
| "re_sub p (c # cs) =
     (case rx_match p (c # cs) of
        None \<Rightarrow> c # re_sub p cs
      | Some ls \<Rightarrow>
          (case sum_list ls of 0 \<Rightarrow> c # re_sub p cs | Suc k \<Rightarrow> re_sub p (drop k cs)))"

section \<open>Title normalisation\<close>

text \<open>
  \<open>normalize_title\<close> (\<open>normalize_gravure_title\<close> in the JavLibrary scraper is the same
  function). The dash class holds U+FF0D, U+002D and U+2014; the colon class U+003A and U+FF1A.
\<close>

definition is_dash :: "nat \<Rightarrow> bool" where
  "is_dash c = (c = 65293 \<or> c = 45 \<or> c = 8212)"

definition is_blank :: "nat \<Rightarrow> bool" where
  "is_blank c = (c = 32 \<or> c = 9)"

definition is_alnum_ascii :: "nat \<Rightarrow> bool" where
  "is_alnum_ascii c = ((65 \<le> c \<and> c \<le> 90) \<or> (97 \<le> c \<and> c \<le> 122) \<or> (48 \<le> c \<and> c \<le> 57))"

definition is_code_suffix_char :: "nat \<Rightarrow> bool" where
  "is_code_suffix_char c = (is_alnum_ascii c \<or> c = 95 \<or> c = 45 \<or> c = 40 \<or> c = 41)"

definition is_code_prefix_char :: "nat \<Rightarrow> bool" where
  "is_code_prefix_char c = (is_alnum_ascii c \<or> c = 95 \<or> c = 45)"

definition is_colon :: "nat \<Rightarrow> bool" where
  "is_colon c = (c = 58 \<or> c = 65306)"

definition performer_prefix_re :: "atom list" where
  "performer_prefix_re = [plus (\<lambda>c. \<not> is_dash c), star is_blank, Rep is_dash 1 (Some 1), star is_blank]"

definition code_suffix_re :: "atom list" where
  "code_suffix_re = [star py_isspace, lit 47, star py_isspace, plus is_code_suffix_char, Eos]"

definition code_prefix_re :: "atom list" where
  "code_prefix_re = [plus is_code_prefix_char, Rep is_colon 1 (Some 1), star py_isspace]"

definition normalize_title :: "ustr option \<Rightarrow> ustr option" where
  "normalize_title raw_title =
     (case raw_title of
        None \<Rightarrow> None
      | Some rt \<Rightarrow>
          if rt = [] then None
          else
            (let t = strip rt;
                 t = strip (re_sub_bol performer_prefix_re t);
                 t = strip (re_sub code_suffix_re t);
                 t = strip (re_sub_bol code_prefix_re t)
             in if t = [] then None else Some t))"


section \<open>A runtime for the examples\<close>

text \<open>
  One instance of the library parameters, used where an example needs concrete values:
  \<open>format\<close> of strings, \<open>None\<close>, booleans and integers (no example formats a float, a
  list or a dict, and their renderings are left empty), the ASCII digits, the upper case
  of ASCII letters, \<open>%Y\<close> zero-padded to four digits, an \<open>int\<close> that reads plain runs of
  ASCII digits, and a parser that accepts nothing.
\<close>

definition format_scalar :: "json \<Rightarrow> ustr" where
  "format_scalar v =
     (case v of
        JStr s \<Rightarrow> s
      | JInt i \<Rightarrow> str_int i
      | JBool b \<Rightarrow> (if b then U ''True'' else U ''False'')
      | JNull \<Rightarrow> U ''None''
      | _ \<Rightarrow> [])"

definition decimal_ascii :: "nat \<Rightarrow> nat option" where
  "decimal_ascii c = (if 48 \<le> c \<and> c \<le> 57 then Some (c - 48) else None)"

definition upper_ascii :: "ustr \<Rightarrow> ustr" where
  "upper_ascii s = map (\<lambda>c. if 97 \<le> c \<and> c \<le> 122 then c - 32 else c) s"

definition int_ascii :: "ustr \<Rightarrow> int option" where
  "int_ascii s =
     (if s \<noteq> [] \<and> list_all (\<lambda>c. 48 \<le> c \<and> c \<le> 57) s
      then Some (int (foldl (\<lambda>a c. 10 * a + (c - 48)) 0 s)) else None)"

definition example_runtime :: pylib where
  "example_runtime =
     \<lparr>py_format = format_scalar, decimal = decimal_ascii, upper = upper_ascii,
      strftime_Y = (\<lambda>y. zfill 4 (nat_digits y)), int_of_str = int_ascii,
      fromstring = (\<lambda>s. None)\<rparr>"

definition example_cookies :: "json list" where
  "example_cookies =
     [JDict [(U ''name'', JStr (U ''cf'')), (U ''value'', JStr (U ''1''))],
      JDict [(U ''name'', JStr []), (U ''value'', JStr (U ''x''))],
      JDict [(U ''name'', JStr (U ''sid''))],
      JDict [(U ''name'', JStr (U ''sid'')), (U ''value'', JStr (U ''ab'')), (U ''path'', JStr (U ''/''))]]"

section \<open>Statements about the fetch client\<close>

text \<open>
  The result the specification gives for a transport failure, the two response shapes it
  compares, and the responses used as examples. \<open>accepted\<close> holds for the status codes
  \<open>raise_for_status\<close> lets through.
\<close>

definition transport_failure :: "ustr \<Rightarrow> fetch_result" where
  "transport_failure msg =
     \<lparr>ok = False, status = JNull, html = JNull, cookies = JList [],
      raw = JDict [(U ''error'', JStr msg)]\<rparr>"

definition not_modified :: response where
  "not_modified = \<lparr>status_code = 304, r_text = [], r_json = None, http_error_message = U ''304''\<rparr>"

definition unavailable :: response where
  "unavailable = \<lparr>status_code = 503, r_text = U ''busy'', r_json = None,
     http_error_message = U ''503 Server Error''\<rparr>"

definition shape_solution :: "ustr \<Rightarrow> json" where
  "shape_solution h =
     JDict [(U ''solution'', JDict [(U ''response'', JDict [(U ''data'', JStr h)])])]"

definition shape_response :: "ustr \<Rightarrow> json" where
  "shape_response h = JDict [(U ''response'', JStr h)]"

definition json_reply :: "json \<Rightarrow> http_reply" where
  "json_reply body =
     Responded \<lparr>status_code = 200, r_text = [], r_json = Some body, http_error_message = []\<rparr>"

definition nonempty_html_string :: "json \<Rightarrow> bool" where
  "nonempty_html_string v = (case v of JStr s \<Rightarrow> s \<noteq> [] | _ \<Rightarrow> False)"

definition number_body :: json where
  "number_body =
     JDict [(U ''solution'',
       JDict [(U ''status'', JInt 200), (U ''response'', JDict [(U ''data'', JInt 5)])])]"

definition empty_html_body :: json where
  "empty_html_body =
     JDict [(U ''solution'', JDict [(U ''status'', JInt 200), (U ''response'', JStr [])])]"

definition accepted :: "response \<Rightarrow> bool" where
  "accepted r = (status_code r < 400 \<or> 600 \<le> status_code r)"

definition html_reply_solution :: response where
  "html_reply_solution =
     \<lparr>status_code = 200, r_text = [], r_json = Some (shape_solution (U ''<html>'')),
      http_error_message = []\<rparr>"

definition html_reply_response :: response where
  "html_reply_response =
     \<lparr>status_code = 200, r_text = [], r_json = Some (shape_response (U ''<html>'')),
      http_error_message = []\<rparr>"

definition empty_html_reply :: response where
  "empty_html_reply =
     \<lparr>status_code = 200, r_text = [], r_json = Some empty_html_body, http_error_message = []\<rparr>"

section \<open>Title normalisation as the specification words it\<close>

text \<open>
  The three removals described without regular expressions. The performer prefix is the
  text up to the first dash variant (when the title does not start with one), with the
  dash and the blanks after it. The code suffix is cut at the first position from which
  the rest reads: white space, a slash, white space, and a non-empty run of code
  characters up to the end. The code prefix is a non-empty run of code characters, a colon
  variant, and the white space after it.
\<close>

text \<open>The longest run a greedy item can take at the start of \<open>s\<close>.\<close>

definition rep_max :: "(nat \<Rightarrow> bool) \<Rightarrow> nat option \<Rightarrow> ustr \<Rightarrow> nat" where
  "rep_max cls hi s =
     (case hi of None \<Rightarrow> length (takeWhile cls s) | Some h \<Rightarrow> min h (length (takeWhile cls s)))"

definition drop_performer_prefix :: "ustr \<Rightarrow> ustr" where
  "drop_performer_prefix t =
     (let name = takeWhile (\<lambda>c. \<not> is_dash c) t;
          rest = dropWhile (\<lambda>c. \<not> is_dash c) t
      in if name \<noteq> [] \<and> rest \<noteq> [] then dropWhile is_blank (tl rest) else t)"

definition is_slash_code :: "ustr \<Rightarrow> bool" where
  "is_slash_code s =
     (case dropWhile py_isspace s of
        [] \<Rightarrow> False
      | c # cs \<Rightarrow> c = 47 \<and> dropWhile py_isspace cs \<noteq> [] \<and>
                 list_all is_code_suffix_char (dropWhile py_isspace cs))"

fun drop_code_suffix :: "ustr \<Rightarrow> ustr" where
  "drop_code_suffix [] = []"
| "drop_code_suffix (c # cs) = (if is_slash_code (c # cs) then [] else c # drop_code_suffix cs)"

definition drop_code_prefix :: "ustr \<Rightarrow> ustr" where
  "drop_code_prefix t =
     (let code = takeWhile is_code_prefix_char t;
          rest = dropWhile is_code_prefix_char t
      in if code \<noteq> [] \<and> rest \<noteq> [] \<and> is_colon (hd rest)
         then dropWhile py_isspace (tl rest) else t)"

definition normalize_title_spec :: "ustr option \<Rightarrow> ustr option" where
  "normalize_title_spec raw_title =
     (case raw_title of
        None \<Rightarrow> None
      | Some rt \<Rightarrow>
          if rt = [] then None
          else
            (let t = strip (drop_code_prefix (strip (drop_code_suffix
                       (strip (drop_performer_prefix (strip rt))))))
             in if t = [] then None else Some t))"

text \<open>The title of the specification's example, and the titles without dash, slash or colon.\<close>

definition example_title :: ustr where
  "example_title = [26412, 30000, 30643] @ U '' - LULU-255'' @ [65306] @ U ''Scene Title / LULU255''"

definition plain_title :: "ustr \<Rightarrow> bool" where
  "plain_title t =
     (t \<noteq> [] \<and> \<not> py_isspace (hd t) \<and> \<not> py_isspace (last t) \<and>
      list_all (\<lambda>c. \<not> is_dash c \<and> c \<noteq> 47 \<and> \<not> is_colon c) t)"

section \<open>Session cache: freshness\<close>



text \<open>
  Double-precision arithmetic. \<open>Finite m e\<close> is the number \<open>m * 2 ^ e\<close>; a double has
  \<open>\<bar>m\<bar> < 2 ^ 53\<close>. \<open>round_float D e\<close> is the double nearest to \<open>D * 2 ^ e\<close>, ties to
  even: the result keeps 53 significant bits, its exponent is no lower than \<open>-1074\<close>, and
  a magnitude that rounds to \<open>2 ^ 1024\<close> or more becomes an infinity.
\<close>

fun bit_length :: "nat \<Rightarrow> nat" where
  "bit_length n = (if n = 0 then 0 else Suc (bit_length (n div 2)))"

declare bit_length.simps [simp del]

definition round_half_even :: "int \<Rightarrow> nat \<Rightarrow> int" where
  "round_half_even D k =
     (let q = D div 2 ^ k; r = D mod 2 ^ k; h = 2 ^ (k - 1)
      in if r < h then q else if h < r then q + 1 else if even q then q else q + 1)"

definition finite_or_inf :: "int \<Rightarrow> int \<Rightarrow> pyfloat" where
  "finite_or_inf M q =
     (if 0 \<le> q \<and> 2 ^ 1024 \<le> \<bar>M\<bar> * 2 ^ nat q then (if 0 < M then PosInf else NegInf)
      else Finite M q)"

definition round_float :: "int \<Rightarrow> int \<Rightarrow> pyfloat" where
  "round_float D e =
     (let q = max (e + int (bit_length (nat \<bar>D\<bar>)) - 53) (- 1074)
      in if q \<le> e then finite_or_inf D e
         else finite_or_inf (round_half_even D (nat (q - e))) q)"

text \<open>
  \<open>x - n\<close> for a float and an integer. The integer is converted to a float first, which
  raises \<open>OverflowError\<close> when it rounds beyond the largest double; the difference of the
  two doubles is then rounded. \<open>x <= n\<close> compares the float with the integer exactly.
\<close>

definition int_to_float :: "int \<Rightarrow> py_error + pyfloat" where
  "int_to_float n =
     (case round_float n 0 of Finite m e \<Rightarrow> Inr (Finite m e) | _ \<Rightarrow> Inl OverflowError)"

fun float_sub :: "pyfloat \<Rightarrow> pyfloat \<Rightarrow> pyfloat" where
  "float_sub (Finite a ea) (Finite b eb) =
     (let e0 = min ea eb
      in round_float (a * 2 ^ nat (ea - e0) - b * 2 ^ nat (eb - e0)) e0)"
| "float_sub NaN y = NaN"
| "float_sub x NaN = NaN"
| "float_sub PosInf PosInf = NaN"
| "float_sub NegInf NegInf = NaN"
| "float_sub PosInf y = PosInf"
| "float_sub NegInf y = NegInf"
| "float_sub x PosInf = NegInf"
| "float_sub x NegInf = PosInf"

definition float_sub_int :: "pyfloat \<Rightarrow> int \<Rightarrow> py_error + pyfloat" where
  "float_sub_int x n =
     (case int_to_float n of Inl err \<Rightarrow> Inl err | Inr y \<Rightarrow> Inr (float_sub x y))"


text \<open>
  The session file: absent, present but unreadable or not JSON, or holding a JSON value.
  \<open>load_flaresolverr_session\<close> returns \<open>None\<close> in the first two cases.
\<close>

datatype file_state = Missing | Unreadable | Content json





definition exact_difference :: "int \<Rightarrow> int \<Rightarrow> int \<Rightarrow> bool" where
  "exact_difference m e ts =
     (- 1074 \<le> e \<and> e \<le> 0 \<and> \<bar>ts\<bar> < 2 ^ 53 \<and> \<bar>m - ts * 2 ^ nat (- e)\<bar> < 2 ^ 53)"

definition epoch_seconds :: "int \<Rightarrow> int \<Rightarrow> bool" where
  "epoch_seconds m e = (- 22 \<le> e \<and> e \<le> 0 \<and> 0 \<le> m \<and> m < 2 ^ (31 + nat (- e)))"


section \<open>Reading the input fragment\<close>

text \<open>
  What a scraper does with its standard input, up to the point where it starts to fetch.
  \<open>json.loads\<close> is taken as given: \<open>parsed\<close> is \<open>None\<close> when it raises and the JSON value
  otherwise. A run ends by returning or \<open>sys.exit()\<close> after printing some JSON values
  (\<open>Exit0\<close>, exit code 0), ends with an exception nothing catches (\<open>Uncaught\<close>: a traceback
  on stderr and exit code 1), or goes on with the values it has read (\<open>Proceed\<close>).
\<close>

datatype 'a stage = Exit0 "json list" | Uncaught py_error | Proceed 'a

text \<open>\<open>main\<close> of the Gravurefit scraper, to the check of the URL.\<close>

definition gravurefit_main_input :: "json option \<Rightarrow> json stage" where
  "gravurefit_main_input parsed =
     (case parsed of
        None \<Rightarrow> Exit0 [JDict []]
      | Some FRAGMENT \<Rightarrow>
          (case FRAGMENT of
             JDict d \<Rightarrow>
               (let SCENE_URL = dict_get d (U ''url'')
                in if \<not> truthy SCENE_URL then Exit0 [JDict []] else Proceed SCENE_URL)
           | _ \<Rightarrow> Uncaught AttributeError))"

text \<open>
  The module-level code of the JavLibrary scraper, to the \<open>validSearch\<close> exit.
  \<open>REPLACE_TITLE\<close> is the empty dict, so the loop of \<open>cleanup_title\<close> has no iteration and
  the title comes back as it went in.
\<close>

definition cleanup_title :: "json \<Rightarrow> json" where
  "cleanup_title title = (if title = JNull then title else title)"

definition javlibrary_input :: "ustr list \<Rightarrow> json option \<Rightarrow> (json \<times> json \<times> json) stage" where
  "javlibrary_input argv parsed =
     (case parsed of
        None \<Rightarrow> Uncaught JSONDecodeError
      | Some FRAGMENT \<Rightarrow>
          (case FRAGMENT of
             JDict d \<Rightarrow>
               (let SEARCH_TITLE = cleanup_title (dict_get d (U ''name''));
                    SCENE_URL = dict_get d (U ''url'');
                    SCENE_TITLE = (if truthy (dict_get d (U ''title''))
                                   then cleanup_title (dict_get d (U ''title'')) else JNull)
                in if U ''validSearch'' \<in> set argv \<and> SCENE_URL = JNull then Exit0 []
                   else Proceed (SEARCH_TITLE, SCENE_URL, SCENE_TITLE))
           | _ \<Rightarrow> Uncaught AttributeError))"

section \<open>Date extraction\<close>

text \<open>
  A calendar date as \<open>datetime\<close>, \<open>datetime.fromisoformat\<close> and \<open>time.strptime\<close> accept
  it: the year from 1 to 9999 and the day within the month.
\<close>

definition leap :: "nat \<Rightarrow> bool" where
  "leap y = (if y mod 100 = 0 then y mod 400 = 0 else y mod 4 = 0)"

definition days_in_month :: "nat \<Rightarrow> nat \<Rightarrow> nat" where
  "days_in_month y m =
     (if m = 2 then (if leap y then 29 else 28)
      else if m = 4 \<or> m = 6 \<or> m = 9 \<or> m = 11 then 30 else 31)"

definition valid_date :: "nat \<times> nat \<times> nat \<Rightarrow> bool" where
  "valid_date ymd =
     (case ymd of (y, m, d) \<Rightarrow>
        1 \<le> y \<and> y \<le> 9999 \<and> 1 \<le> m \<and> m \<le> 12 \<and> 1 \<le> d \<and> d \<le> days_in_month y m)"

text \<open>
  The class \<open>\d\<close> and \<open>int\<close> of a run of digits, both over the Unicode decimal digits;
  the ASCII digits, which alone \<open>fromisoformat\<close> reads.
\<close>

definition is_digit :: "pylib \<Rightarrow> nat \<Rightarrow> bool" where
  "is_digit L c = (decimal L c \<noteq> None)"

definition int_digits :: "pylib \<Rightarrow> ustr \<Rightarrow> nat" where
  "int_digits L s = foldl (\<lambda>a c. 10 * a + (case decimal L c of Some v \<Rightarrow> v | None \<Rightarrow> 0)) 0 s"

definition is_ascii_digit :: "nat \<Rightarrow> bool" where
  "is_ascii_digit c = (48 \<le> c \<and> c \<le> 57)"

text \<open>
  \<open>p.finditer(s)\<close>: the matches from left to right, without overlap, each as the text
  from its start on and the lengths its items took. \<open>pieces\<close> cuts that text by the
  lengths.
\<close>

fun finditer :: "atom list \<Rightarrow> ustr \<Rightarrow> (ustr \<times> nat list) list" where
  "finditer p [] = (case rx_match p [] of None \<Rightarrow> [] | Some ls \<Rightarrow> [([], ls)])"
| "finditer p (c # cs) =
     (case rx_match p (c # cs) of
        None \<Rightarrow> finditer p cs
      | Some ls \<Rightarrow>
          (case sum_list ls of
             0 \<Rightarrow> (c # cs, ls) # finditer p cs
           | Suc k \<Rightarrow> (c # cs, ls) # finditer p (drop k cs)))"

fun pieces :: "nat list \<Rightarrow> ustr \<Rightarrow> ustr list" where
  "pieces [] s = []"
| "pieces (l # ls) s = take l s # pieces ls (drop l s)"

text \<open>
  The two notations: four digits, one or two digits and one or two digits, each group
  followed by its sign (U+5E74 for the year, U+6708 for the month, U+65E5 for the day)
  and the first two signs by any white space; and \<open>(\d{4}-\d{2}-\d{2})\<close>.
  \<open>localized_matches\<close> gives the three groups of each match of the first as numbers,
  \<open>iso_matches\<close> the text of each match of the second.
\<close>

definition date_regex :: "pylib \<Rightarrow> atom list" where
  "date_regex L =
     [Rep (is_digit L) 4 (Some 4), lit 24180, star py_isspace,
      Rep (is_digit L) 1 (Some 2), lit 26376, star py_isspace,
      Rep (is_digit L) 1 (Some 2), lit 26085]"

definition iso_regex :: "pylib \<Rightarrow> atom list" where
  "iso_regex L =
     [Rep (is_digit L) 4 (Some 4), lit 45, Rep (is_digit L) 2 (Some 2), lit 45,
      Rep (is_digit L) 2 (Some 2)]"

definition localized_matches :: "pylib \<Rightarrow> ustr \<Rightarrow> (nat \<times> nat \<times> nat) list" where
  "localized_matches L text =
     map (\<lambda>(s, ls). case pieces ls s of
            [y, _, _, mo, _, _, d, _] \<Rightarrow> (int_digits L y, int_digits L mo, int_digits L d)
          | _ \<Rightarrow> (0, 0, 0))
       (finditer (date_regex L) text)"

definition iso_matches :: "pylib \<Rightarrow> ustr \<Rightarrow> ustr list" where
  "iso_matches L text = map (\<lambda>(s, ls). take (sum_list ls) s) (finditer (iso_regex L) text)"

definition split_iso :: "pylib \<Rightarrow> ustr \<Rightarrow> nat \<times> nat \<times> nat" where
  "split_iso L s =
     (int_digits L (take 4 s), int_digits L (take 2 (drop 5 s)), int_digits L (drop 8 s))"

text \<open>
  \<open>find_earliest_date_in_text\<close> of the Gravurefit scraper: both loops keep a match only
  when the constructor of the date accepts it.
\<close>

definition find_earliest_date_in_text :: "pylib \<Rightarrow> ustr \<Rightarrow> ustr option" where
  "find_earliest_date_in_text L text =
     (let dates = filter valid_date (localized_matches L text) @
                  filter valid_date
                    (map (split_iso L) (filter (list_all (\<lambda>c. is_ascii_digit c \<or> c = 45))
                       (iso_matches L text)))
      in if dates = [] then None
         else (case min_list dates of (y, m, d) \<Rightarrow>
                 Some (strftime_Y L y @ U ''-'' @ zfill 2 (nat_digits m) @ U ''-'' @
                       zfill 2 (nat_digits d))))"

text \<open>
  \<open>find_earliest_date_from_text\<close> of the JavLibrary scraper: the first loop checks the
  match with \<open>time.strptime\<close>, the second appends the three numbers of every ISO match.
\<close>

definition find_earliest_date_from_text :: "pylib \<Rightarrow> ustr \<Rightarrow> ustr option" where
  "find_earliest_date_from_text L text =
     (if text = [] then None
      else
        (let dates = filter valid_date (localized_matches L text) @
                     map (split_iso L) (iso_matches L text)
         in if dates = [] then None
            else (case hd (sort dates) of (y, m, d) \<Rightarrow>
                    Some (nat_digits y @ U ''-'' @ zfill 2 (nat_digits m) @ U ''-'' @
                          zfill 2 (nat_digits d)))))"

text \<open>
  The text of the specification's example: an ISO date in May, then a localized date in
  March of the same year.
\<close>

definition example_dates_text :: ustr where
  "example_dates_text =
     U ''2019-05-01 2019'' @ [24180] @ U ''3'' @ [26376] @ U ''1'' @ [26085]"

section \<open>HTML field extractor\<close>

text \<open>
  The pieces of \<open>extract_gravure_fields\<close>. \<open>first_stripped\<close> is
  \<open>xs[0].strip() if xs else None\<close>, \<open>or_list\<close> is \<open>xs or ys\<close> on lists, \<open>opt_str\<close> turns an
  optional string into a JSON value, and \<open>stripped_nonempty\<close> is the comprehension
  \<open>[p.strip() for p in xs if p.strip()]\<close>.
\<close>

definition first_stripped :: "ustr list \<Rightarrow> ustr option" where
  "first_stripped xs = (case xs of [] \<Rightarrow> None | x # _ \<Rightarrow> Some (strip x))"

definition or_list :: "'a list \<Rightarrow> 'a list \<Rightarrow> 'a list" where
  "or_list xs ys = (if xs \<noteq> [] then xs else ys)"

definition opt_str :: "ustr option \<Rightarrow> json" where
  "opt_str v = (case v of None \<Rightarrow> JNull | Some s \<Rightarrow> JStr s)"

definition stripped_nonempty :: "ustr list \<Rightarrow> ustr list" where
  "stripped_nonempty xs = map strip (filter (\<lambda>p. strip p \<noteq> []) xs)"

text \<open>The loop that removes duplicates: \<open>seen\<close> and \<open>dedup\<close> are its two variables.\<close>

fun dedupe :: "ustr list \<Rightarrow> ustr set \<Rightarrow> ustr list \<Rightarrow> ustr list" where
  "dedupe [] seen dedup = dedup"
| "dedupe (t # ts) seen dedup =
     (if t \<notin> seen then dedupe ts (insert t seen) (dedup @ [t]) else dedupe ts seen dedup)"

text \<open>
  The image: the first query that returns something gives the address, which is made
  absolute; \<open>base\<close> is the origin of the site.
\<close>

definition pick_image :: "page \<Rightarrow> ustr option" where
  "pick_image doc =
     (if photopc_img doc \<noteq> [] then Some (hd (photopc_img doc))
      else if package_img doc \<noteq> [] then Some (hd (package_img doc))
      else if og_image doc \<noteq> [] then Some (hd (og_image doc))
      else None)"

definition absolute_image :: "ustr \<Rightarrow> ustr option \<Rightarrow> json" where
  "absolute_image base img =
     (case img of
        None \<Rightarrow> JNull
      | Some i \<Rightarrow>
          if i = [] then JNull
          else if take 2 i = U ''//'' then JStr (U ''https:'' @ i)
          else if take 1 i = U ''/'' then JStr (base @ i)
          else JStr i)"

definition BASE_SITE :: ustr where
  "BASE_SITE = U ''https://www.gravurefit.com''"

text \<open>
  The code: \<open>.*?([A-Za-z]{3,6}-\d{2,6}).*\<close> searched in the canonical address, its group
  in upper case; without a match, the last non-empty segment of the address.
  \<open>re_search\<close> is \<open>p.search(s)\<close>, the first start position with a match, and
  \<open>split_on\<close> is \<open>s.split(sep)\<close> for a one-character separator.
\<close>

definition is_alpha_ascii :: "nat \<Rightarrow> bool" where
  "is_alpha_ascii c = ((65 \<le> c \<and> c \<le> 90) \<or> (97 \<le> c \<and> c \<le> 122))"

definition code_regex :: "pylib \<Rightarrow> atom list" where
  "code_regex L =
     [Lazy (\<lambda>c. c \<noteq> 10), Rep is_alpha_ascii 3 (Some 6), lit 45, Rep (is_digit L) 2 (Some 6),
      star (\<lambda>c. c \<noteq> 10)]"

fun re_search :: "atom list \<Rightarrow> ustr \<Rightarrow> (ustr \<times> nat list) option" where
  "re_search p [] = map_option (Pair []) (rx_match p [])"
| "re_search p (c # cs) =
     (case rx_match p (c # cs) of Some ls \<Rightarrow> Some (c # cs, ls) | None \<Rightarrow> re_search p cs)"

fun split_on :: "nat \<Rightarrow> ustr \<Rightarrow> ustr list" where
  "split_on sep [] = [[]]"
| "split_on sep (c # cs) =
     (if c = sep then [] # split_on sep cs
      else (case split_on sep cs of p # ps \<Rightarrow> (c # p) # ps | [] \<Rightarrow> [[c]]))"

definition extract_code :: "pylib \<Rightarrow> page \<Rightarrow> json" where
  "extract_code L doc =
     (case or_list (canonical_href doc) (og_url doc) of
        [] \<Rightarrow> JNull
      | c0 # _ \<Rightarrow>
          (case re_search (code_regex L) c0 of
             Some (s, ls) \<Rightarrow>
               (case pieces ls s of
                  [_, letters, dash, digits, _] \<Rightarrow> JStr (upper L (letters @ dash @ digits))
                | _ \<Rightarrow> JNull)
           | None \<Rightarrow>
               (let parts = filter (\<lambda>p. p \<noteq> []) (split_on 47 c0)
                in if parts \<noteq> [] then JStr (upper L (last parts)) else JNull)))"

text \<open>
  The fields of a parsed document, in the order the code stores them. The two scrapers
  differ in the date function and in how the origin of the site is written;
  the \<open>try\<close> blocks the JavLibrary scraper puts around each field guard queries that
  are total here. \<open>extract_gravure_fields\<close> is the function of the Gravurefit scraper
  and \<open>javlibrary_extract_gravure_fields\<close> the one of the same name in the JavLibrary
  scraper: each parses the text, tries once more on \<open>str(html_content)\<close>, which for a
  string is the same text, and returns the empty dict when that fails too.
\<close>

definition gravure_fields ::
    "(ustr \<Rightarrow> ustr option) \<Rightarrow> ustr \<Rightarrow> pylib \<Rightarrow> page \<Rightarrow> (ustr \<times> json) list" where
  "gravure_fields find_date base L doc =
     (let raw_title = first_stripped (h1_text doc);
          details = or_list (meta_description doc) (p_description doc);
          text = (case text_content doc of Some t \<Rightarrow> t | None \<Rightarrow> []);
          performers = or_list (actress_links doc) (profile_links doc);
          tags = stripped_nonempty (theme_links doc) @ stripped_nonempty (play_links doc)
      in [(U ''title_raw'', opt_str raw_title),
          (U ''title'', opt_str (normalize_title raw_title)),
          (U ''details'', opt_str (first_stripped details)),
          (U ''date'', opt_str (find_date text)),
          (U ''performers'', JList (map JStr (stripped_nonempty performers))),
          (U ''tags'', JList (map JStr (dedupe tags {} []))),
          (U ''image'', absolute_image base (pick_image doc)),
          (U ''studio'', opt_str (first_stripped (maker_text doc))),
          (U ''code'', extract_code L doc)])"

definition extract_gravure_fields :: "pylib \<Rightarrow> ustr \<Rightarrow> (ustr \<times> json) list" where
  "extract_gravure_fields L html_content =
     (case fromstring L html_content of
        Some doc \<Rightarrow> gravure_fields (find_earliest_date_in_text L) BASE_SITE L doc
      | None \<Rightarrow>
          (case fromstring L html_content of
             Some doc \<Rightarrow> gravure_fields (find_earliest_date_in_text L) BASE_SITE L doc
           | None \<Rightarrow> []))"

definition javlibrary_extract_gravure_fields :: "pylib \<Rightarrow> ustr \<Rightarrow> (ustr \<times> json) list" where
  "javlibrary_extract_gravure_fields L html_content =
     (case fromstring L html_content of
        Some doc \<Rightarrow>
          gravure_fields (find_earliest_date_from_text L) (U ''https://www.gravurefit.com'') L doc
      | None \<Rightarrow>
          (case fromstring L html_content of
             Some doc \<Rightarrow>
               gravure_fields (find_earliest_date_from_text L) (U ''https://www.gravurefit.com'') L
                 doc
           | None \<Rightarrow> []))"

text \<open>
  What the statement about the extractor speaks of: the nine keys, a list of non-empty
  stripped strings, and a list without duplicates.
\<close>

definition field_keys :: "ustr list" where
  "field_keys =
     [U ''title_raw'', U ''title'', U ''details'', U ''date'', U ''performers'', U ''tags'',
      U ''image'', U ''studio'', U ''code'']"

definition clean_strings :: "json \<Rightarrow> bool" where
  "clean_strings v =
     (case v of
        JList xs \<Rightarrow> list_all (\<lambda>x. case x of JStr s \<Rightarrow> s \<noteq> [] \<and> strip s = s | _ \<Rightarrow> False) xs
      | _ \<Rightarrow> False)"

definition no_duplicates :: "json \<Rightarrow> bool" where
  "no_duplicates v = (case v of JList xs \<Rightarrow> distinct xs | _ \<Rightarrow> False)"

definition example_page :: page where
  "example_page =
     \<lparr>h1_text = [U '' ABC-123: Beach day ''], meta_description = [],
      p_description = [U ''A day at the beach. ''], text_content = Some example_dates_text,
      actress_links = [], profile_links = [U '' Hitomi '', U ''  ''],
      theme_links = [U ''beach'', U '' sun ''], play_links = [U ''sun'', U ''swim''],
      photopc_img = [], package_img = [U ''//img.gravurefit.com/a.jpg''], og_image = [],
      maker_text = [], canonical_href = [U ''/v/abc-123/''], og_url = []\<rparr>"

definition page_runtime :: pylib where
  "page_runtime =
     \<lparr>py_format = format_scalar, decimal = decimal_ascii, upper = upper_ascii,
      strftime_Y = (\<lambda>y. zfill 4 (nat_digits y)), int_of_str = int_ascii,
      fromstring = (\<lambda>s. if s = U ''<html>'' then Some example_page else None)\<rparr>"

section \<open>Verified properties\<close>

lemma cookie_parts_filter:
  "\<forall>c\<in>set cs. is_dict c \<Longrightarrow>
   cookie_parts L cs parts = Inr (parts @ map (cookie_pair L) (filter valid_cookie cs))"
proof (induction cs arbitrary: parts)
  case Nil
  then show ?case by simp
next
  case (Cons c cs)
  then obtain d where c: "c = JDict d" by (cases c) (auto simp: is_dict_def)
  from Cons show ?case
    by (simp add: c valid_cookie_def cookie_pair_def Let_def)
qed

lemma join_eq_Nil: "join sep xs = [] \<Longrightarrow> \<forall>x\<in>set xs. x \<noteq> [] \<Longrightarrow> xs = []"
  by (induction sep xs rule: join.induct) auto

lemma cookie_pair_nonempty: "valid_cookie c \<Longrightarrow> cookie_pair L c \<noteq> []"
  by (cases c) (simp_all add: cookie_pair_def valid_cookie_def U_def)

text \<open>
  Claim C6. On a list of cookie records, \<open>build_cookie_header_from_list\<close> returns no header
  when no entry has a non-empty name and a non-null value (in particular on the empty
  list); otherwise it returns the \<open>name=value\<close> pairs of the valid entries, in input order,
  joined with \<open>"; "\<close>. It never returns the empty string.
\<close>

theorem build_cookie_header_spec:
  assumes "\<forall>c\<in>set cs. is_dict c"
  shows "build_cookie_header_from_list L (JList cs) =
           Inr (if filter valid_cookie cs = [] then None
                else Some (join (U ''; '') (map (cookie_pair L) (filter valid_cookie cs))))
         \<and> build_cookie_header_from_list L (JList cs) \<noteq> Inr (Some [])"
proof -
  let ?v = "filter valid_cookie cs"
  have parts: "cookie_parts L cs [] = Inr (map (cookie_pair L) ?v)"
    using cookie_parts_filter[OF assms, of L "[]"] by simp
  have ne: "\<forall>x\<in>set (map (cookie_pair L) ?v). x \<noteq> []"
    by (auto simp: cookie_pair_nonempty)
  have "join (U ''; '') (map (cookie_pair L) ?v) = [] \<Longrightarrow> ?v = []"
    using join_eq_Nil[OF _ ne] by simp
  then show ?thesis
    by (auto simp: build_cookie_header_from_list_def parts)
qed


theorem build_cookie_header_spec_witness:
  "list_all is_dict example_cookies \<and>
   build_cookie_header_from_list example_runtime (JList example_cookies) =
     Inr (Some (U ''cf=1; sid=ab''))"
  using build_cookie_header_spec [of example_cookies example_runtime]
  by (simp add: example_cookies_def is_dict_def valid_cookie_def cookie_pair_def dict_get_def
      dict_get_default_def example_runtime_def format_scalar_def U_def)

lemmas fetch_defs = fetch_via_flaresolverr_def post_checked_def raise_for_status_def probe_shapes_def
  probe_solution_def probe_response_def py_or_def dict_get_def dict_get_default_def U_def

lemma post_checked_accepted: "accepted r \<Longrightarrow> post_checked (Responded r) = Inr r"
  by (auto simp: post_checked_def raise_for_status_def accepted_def)

lemmas probe_defs = probe_shapes_def probe_solution_def probe_response_def py_or_def dict_get_def
  dict_get_default_def U_def

text \<open>
  Claim C7 (as amended). When \<open>requests.post\<close> raises (connection error, timeout), and
  when the proxy answers with a 4xx or 5xx status, for which \<open>raise_for_status\<close> raises,
  the fetch client returns exactly \<open>{ok: False, status: None, html: None, cookies: [],
  raw: {error: message}}\<close>; the model is total, so nothing propagates to the caller.
\<close>

theorem fetch_transport_failure:
  "fetch_via_flaresolverr (RequestException msg) = transport_failure msg \<and>
   (400 \<le> status_code r \<and> status_code r < 600 \<longrightarrow>
      fetch_via_flaresolverr (Responded r) = transport_failure (http_error_message r))"
  by (simp add: fetch_via_flaresolverr_def post_checked_def raise_for_status_def transport_failure_def)

theorem fetch_transport_failure_witness:
  "400 \<le> status_code unavailable \<and> status_code unavailable < 600 \<and>
   fetch_via_flaresolverr (Responded unavailable) = transport_failure (U ''503 Server Error'')"
  using fetch_transport_failure [of "[]" unavailable]
  by (simp add: unavailable_def)

text \<open>
  The claim as stated (every non-2xx status) fails: \<open>raise_for_status\<close> does not raise for
  a 304 answer, and with an empty body the result carries \<open>html = ""\<close> and \<open>raw = ""\<close>.
\<close>

theorem fetch_non_2xx_counterexample:
  "fetch_via_flaresolverr (Responded not_modified) \<noteq> transport_failure (http_error_message not_modified)
   \<and> html (fetch_via_flaresolverr (Responded not_modified)) = JStr []
   \<and> raw (fetch_via_flaresolverr (Responded not_modified)) = JStr []"
  by (simp add: fetch_via_flaresolverr_def post_checked_def raise_for_status_def transport_failure_def
      not_modified_def)

text \<open>
  Claim C2 (as amended). For every non-empty HTML string \<open>h\<close>, a body shaped
  \<open>{solution: {response: {data: h}}}\<close> and one shaped \<open>{response: h}\<close> both yield
  \<open>html = h\<close> and \<open>ok = True\<close>; for the empty string both yield \<open>ok = False\<close>.
\<close>

theorem fetch_shape_invariant:
  assumes "accepted r1" and "r_json r1 = Some (shape_solution h)"
    and "accepted r2" and "r_json r2 = Some (shape_response h)"
  shows "ok (fetch_via_flaresolverr (Responded r1)) = (h \<noteq> []) \<and>
         ok (fetch_via_flaresolverr (Responded r2)) = (h \<noteq> []) \<and>
         (h \<noteq> [] \<longrightarrow>
            html (fetch_via_flaresolverr (Responded r1)) = JStr h \<and>
            html (fetch_via_flaresolverr (Responded r2)) = JStr h)"
  using assms(2,4)
  by (simp add: fetch_via_flaresolverr_def post_checked_accepted [OF assms(1)]
      post_checked_accepted [OF assms(3)] probe_defs shape_solution_def shape_response_def)

theorem fetch_shape_invariant_witness:
  "accepted html_reply_solution \<and> accepted html_reply_response \<and>
   U ''<html>'' \<noteq> [] \<and>
   html (fetch_via_flaresolverr (Responded html_reply_solution)) = JStr (U ''<html>'') \<and>
   html (fetch_via_flaresolverr (Responded html_reply_response)) = JStr (U ''<html>'') \<and>
   ok (fetch_via_flaresolverr (Responded html_reply_solution)) \<and>
   ok (fetch_via_flaresolverr (Responded html_reply_response))"
  using fetch_shape_invariant [of html_reply_solution "U ''<html>''" html_reply_response]
  by (simp add: html_reply_solution_def html_reply_response_def accepted_def U_def)

text \<open>
  The claim as stated (every HTML string) fails at the empty string: the first shape
  yields \<open>html = None\<close>, the second \<open>html = ""\<close>.
\<close>

theorem fetch_shape_empty_counterexample:
  "html (fetch_via_flaresolverr (json_reply (shape_solution []))) \<noteq>
   html (fetch_via_flaresolverr (json_reply (shape_response []))) \<and>
   html (fetch_via_flaresolverr (json_reply (shape_solution []))) \<noteq> JStr []"
  by (simp add: fetch_defs json_reply_def shape_solution_def shape_response_def)

text \<open>
  Claim C5. \<open>ok\<close> is to hold exactly when the fallback chain recovered a non-empty HTML
  string. The chain takes the \<open>data\<close>, \<open>content\<close> and \<open>html\<close> entries as they come, of
  any JSON type, and \<open>ok\<close> is the truth value of what it took: on a body that reports
  status 200 and carries the number 5 as \<open>data\<close> the result has \<open>ok = True\<close> and
  \<open>html = 5\<close>, which is no HTML string.
\<close>

theorem fetch_ok_number_body:
  "fetch_via_flaresolverr (json_reply number_body) =
     \<lparr>ok = True, status = JInt 200, html = JInt 5, cookies = JList [], raw = number_body\<rparr> \<and>
   \<not> nonempty_html_string (html (fetch_via_flaresolverr (json_reply number_body)))"
  by (simp add: fetch_defs json_reply_def number_body_def nonempty_html_string_def)

text \<open>
  A body that reports status 200 and carries the empty string as its HTML yields
  \<open>ok = False\<close>.
\<close>

lemma fetch_ok_empty_html:
  "status (fetch_via_flaresolverr (Responded empty_html_reply)) = JInt 200 \<and>
   html (fetch_via_flaresolverr (Responded empty_html_reply)) = JStr [] \<and>
   ok (fetch_via_flaresolverr (Responded empty_html_reply)) = False"
  by (simp add: fetch_defs empty_html_reply_def empty_html_body_def)

subsection \<open>The regular expressions of the title normalisation\<close>

lemma first_some_None: "first_some f ks = None \<longleftrightarrow> (\<forall>k\<in>set ks. f k = None)"
  by (induction ks) (auto split: option.splits)

lemma first_some_hd: "f k = Some r \<Longrightarrow> first_some f (k # ks) = Some r"
  by simp

lemma rev_upt_Suc: "lo \<le> m \<Longrightarrow> rev [lo ..< Suc m] = m # rev [lo ..< m]"
  by simp

lemma rx_match_Rep:
  "rx_match (Rep cls lo hi # as) s =
     first_some (\<lambda>k. map_option ((#) k) (rx_match as (drop k s))) (rev [lo ..< Suc (rep_max cls hi s)])"
  by (simp add: rep_max_def Let_def del: upt_Suc)

declare rx_match.simps(3) [simp del]

lemma rx_match_Rep_greedy:
  assumes "lo \<le> rep_max cls hi s" and "rx_match as (drop (rep_max cls hi s) s) = Some r"
  shows "rx_match (Rep cls lo hi # as) s = Some (rep_max cls hi s # r)"
  by (simp only: rx_match_Rep rev_upt_Suc [OF assms(1)] first_some.simps assms(2)) simp

lemma rx_match_Rep_None:
  assumes "\<And>k. lo \<le> k \<Longrightarrow> k \<le> rep_max cls hi s \<Longrightarrow> rx_match as (drop k s) = None"
  shows "rx_match (Rep cls lo hi # as) s = None"
  using assms by (auto simp only: rx_match_Rep first_some_None set_rev set_upt atLeastLessThan_iff
      less_Suc_eq_le option.map)

lemma drop_takeWhile_len: "drop (length (takeWhile P s)) s = dropWhile P s"
  by (induction s) auto

lemma rx_match_star_last: "rx_match [Rep cls 0 None] s = Some [length (takeWhile cls s)]"
  using rx_match_Rep_greedy [of 0 cls None s "[]" "[]"] by (simp add: rep_max_def)

lemma rx_match_one_then_star_Cons:
  "rx_match [Rep p (Suc 0) (Some (Suc 0)), Rep q 0 None] (c # cs) =
     (if p c then Some [Suc 0, length (takeWhile q cs)] else None)"
proof (cases "p c")
  case True
  then have m: "rep_max p (Some (Suc 0)) (c # cs) = Suc 0" by (simp add: rep_max_def)
  have "rx_match (Rep p (Suc 0) (Some (Suc 0)) # [Rep q 0 None]) (c # cs) =
      Some (rep_max p (Some (Suc 0)) (c # cs) # [length (takeWhile q cs)])"
  proof (rule rx_match_Rep_greedy)
    show "Suc 0 \<le> rep_max p (Some (Suc 0)) (c # cs)" by (simp add: m)
    show "rx_match [Rep q 0 None] (drop (rep_max p (Some (Suc 0)) (c # cs)) (c # cs)) =
        Some [length (takeWhile q cs)]"
      by (simp add: m rx_match_star_last)
  qed
  then show ?thesis by (simp add: m True)
next
  case False
  then show ?thesis by (simp add: rx_match_Rep rep_max_def)
qed

lemma rx_match_one_then_star:
  "rx_match [Rep p (Suc 0) (Some (Suc 0)), Rep q 0 None] s =
     (case s of [] \<Rightarrow> None
      | c # cs \<Rightarrow> if p c then Some [Suc 0, length (takeWhile q cs)] else None)"
  by (cases s) (simp_all add: rx_match_one_then_star_Cons rx_match_Rep rep_max_def)

lemma drop_subset: "x \<in> set (drop k s) \<Longrightarrow> x \<in> set s"
  by (rule in_set_dropD)

lemma rx_match_blank_dash_none:
  assumes "\<forall>c\<in>set s. \<not> is_dash c"
  shows "rx_match [Rep is_blank 0 None, Rep is_dash (Suc 0) (Some (Suc 0)), Rep is_blank 0 None] s = None"
proof (rule rx_match_Rep_None)
  fix k
  show "rx_match [Rep is_dash (Suc 0) (Some (Suc 0)), Rep is_blank 0 None] (drop k s) = None"
  proof (cases "drop k s")
    case Nil
    then show ?thesis by (simp add: rx_match_one_then_star)
  next
    case (Cons c cs)
    then have "c \<in> set s" by (metis in_set_dropD list.set_intros(1))
    with assms have "\<not> is_dash c" by blast
    then show ?thesis by (simp add: rx_match_one_then_star Cons)
  qed
qed

lemma rx_match_blank_dash_some:
  assumes "is_dash d"
  shows "rx_match [Rep is_blank 0 None, Rep is_dash (Suc 0) (Some (Suc 0)), Rep is_blank 0 None] (d # s) =
           Some [0, Suc 0, length (takeWhile is_blank s)]"
proof -
  have nb: "\<not> is_blank d" using assms by (auto simp: is_dash_def is_blank_def)
  then have m: "rep_max is_blank None (d # s) = 0" by (simp add: rep_max_def)
  have "rx_match (Rep is_blank 0 None # [Rep is_dash (Suc 0) (Some (Suc 0)), Rep is_blank 0 None]) (d # s) =
      Some (rep_max is_blank None (d # s) # [Suc 0, length (takeWhile is_blank s)])"
  proof (rule rx_match_Rep_greedy)
    show "0 \<le> rep_max is_blank None (d # s)" by simp
    show "rx_match [Rep is_dash (Suc 0) (Some (Suc 0)), Rep is_blank 0 None]
        (drop (rep_max is_blank None (d # s)) (d # s)) = Some [Suc 0, length (takeWhile is_blank s)]"
      by (simp add: m rx_match_one_then_star assms)
  qed
  then show ?thesis by (simp add: m)
qed

lemma re_sub_bol_performer: "re_sub_bol performer_prefix_re t = drop_performer_prefix t"
proof -
  let ?nd = "\<lambda>c. \<not> is_dash c"
  let ?n = "length (takeWhile ?nd t)"
  let ?mid = "[Rep is_blank 0 None, Rep is_dash (Suc 0) (Some (Suc 0)), Rep is_blank 0 None]"
  have p: "performer_prefix_re = Rep ?nd (Suc 0) None # ?mid"
    by (simp add: performer_prefix_re_def plus_def star_def)
  have m: "rep_max ?nd None t = ?n" by (simp add: rep_max_def)
  show ?thesis
  proof (cases "takeWhile ?nd t = []")
    case True
    then have "rx_match performer_prefix_re t = None"
      by (simp add: p rx_match_Rep m)
    then show ?thesis by (simp add: re_sub_bol_def drop_performer_prefix_def True)
  next
    case False
    then have n1: "Suc 0 \<le> ?n" by (cases "takeWhile ?nd t") auto
    show ?thesis
    proof (cases "dropWhile ?nd t")
      case Nil
      then have all: "\<forall>c\<in>set t. \<not> is_dash c" by (simp add: dropWhile_eq_Nil_conv)
      have "rx_match performer_prefix_re t = None"
        unfolding p
      proof (rule rx_match_Rep_None)
        fix k
        have "\<forall>c\<in>set (drop k t). \<not> is_dash c" using all by (meson in_set_dropD)
        then show "rx_match ?mid (drop k t) = None" by (rule rx_match_blank_dash_none)
      qed
      then show ?thesis by (simp add: re_sub_bol_def drop_performer_prefix_def Nil)
    next
      case (Cons d rest)
      have "\<not> ?nd (hd (dropWhile ?nd t))" by (rule hd_dropWhile) (simp add: Cons)
      then have d: "is_dash d" by (simp add: Cons)
      have dr: "drop ?n t = d # rest" by (simp add: drop_takeWhile_len Cons)
      have "rx_match (Rep ?nd (Suc 0) None # ?mid) t =
          Some (rep_max ?nd None t # [0, Suc 0, length (takeWhile is_blank rest)])"
      proof (rule rx_match_Rep_greedy)
        show "Suc 0 \<le> rep_max ?nd None t" using n1 by (simp add: m)
        show "rx_match ?mid (drop (rep_max ?nd None t) t) = Some [0, Suc 0, length (takeWhile is_blank rest)]"
          by (simp only: m dr rx_match_blank_dash_some [OF d])
      qed
      then have r: "rx_match performer_prefix_re t = Some [?n, 0, Suc 0, length (takeWhile is_blank rest)]"
        by (simp only: p m)
      have "drop (length (takeWhile is_blank rest)) (drop (Suc 0) (drop ?n t)) = dropWhile is_blank rest"
        by (simp only: drop_takeWhile_len Cons drop_Suc_Cons drop_0)
      then have "drop (?n + (Suc 0 + length (takeWhile is_blank rest))) t = dropWhile is_blank rest"
        by (simp add: ac_simps)
      then show ?thesis
        using False by (simp add: re_sub_bol_def drop_performer_prefix_def Cons r)
    qed
  qed
qed

lemma takeWhile_prefix_holds:
  assumes "k < length (takeWhile P s)" and "drop k s = c # cs"
  shows "P c"
proof -
  have "s ! k = c" using assms(2) by (rule nth_via_drop)
  moreover have "takeWhile P s ! k = s ! k" using assms(1) by (rule takeWhile_nth)
  moreover have "takeWhile P s ! k \<in> set (takeWhile P s)" using assms(1) by simp
  ultimately show ?thesis by (metis set_takeWhileD)
qed

lemma re_sub_bol_code_prefix: "re_sub_bol code_prefix_re t = drop_code_prefix t"
proof -
  let ?n = "length (takeWhile is_code_prefix_char t)"
  let ?rest = "dropWhile is_code_prefix_char t"
  let ?tl = "[Rep is_colon (Suc 0) (Some (Suc 0)), Rep py_isspace 0 None]"
  have p: "code_prefix_re = Rep is_code_prefix_char (Suc 0) None # ?tl"
    by (simp add: code_prefix_re_def plus_def star_def)
  have m: "rep_max is_code_prefix_char None t = ?n" by (simp add: rep_max_def)
  have nc: "\<And>c. is_code_prefix_char c \<Longrightarrow> \<not> is_colon c"
    by (auto simp: is_code_prefix_char_def is_alnum_ascii_def is_colon_def)
  show ?thesis
  proof (cases "takeWhile is_code_prefix_char t \<noteq> [] \<and> ?rest \<noteq> [] \<and> is_colon (hd ?rest)")
    case True
    then obtain c rest' where r: "?rest = c # rest'" and c: "is_colon c"
      by (cases ?rest) auto
    from True have n1: "Suc 0 \<le> ?n" by (cases "takeWhile is_code_prefix_char t") auto
    have "rx_match (Rep is_code_prefix_char (Suc 0) None # ?tl) t =
        Some (rep_max is_code_prefix_char None t # [Suc 0, length (takeWhile py_isspace rest')])"
    proof (rule rx_match_Rep_greedy)
      show "Suc 0 \<le> rep_max is_code_prefix_char None t" using n1 by (simp add: m)
      show "rx_match ?tl (drop (rep_max is_code_prefix_char None t) t) =
          Some [Suc 0, length (takeWhile py_isspace rest')]"
        by (simp add: m drop_takeWhile_len r rx_match_one_then_star_Cons c)
    qed
    then have rm: "rx_match code_prefix_re t = Some [?n, Suc 0, length (takeWhile py_isspace rest')]"
      by (simp only: p m)
    have "drop (length (takeWhile py_isspace rest')) (drop (Suc 0) (drop ?n t)) = dropWhile py_isspace rest'"
      by (simp only: drop_takeWhile_len r drop_Suc_Cons drop_0)
    then have "drop (?n + (Suc 0 + length (takeWhile py_isspace rest'))) t = dropWhile py_isspace rest'"
      by (simp add: ac_simps)
    then show ?thesis
      using True by (simp add: re_sub_bol_def drop_code_prefix_def r rm)
  next
    case False
    have "rx_match (Rep is_code_prefix_char (Suc 0) None # ?tl) t = None"
    proof (rule rx_match_Rep_None)
      fix k assume k1: "Suc 0 \<le> k" and kn: "k \<le> rep_max is_code_prefix_char None t"
      show "rx_match ?tl (drop k t) = None"
      proof (cases "drop k t")
        case Nil
        then show ?thesis by (simp add: rx_match_one_then_star)
      next
        case (Cons c cs)
        have "\<not> is_colon c"
        proof (cases "k < ?n")
          case True
          then have "is_code_prefix_char c" using Cons by (rule takeWhile_prefix_holds)
          then show ?thesis by (rule nc)
        next
          case kk: False
          then have "k = ?n" using kn by (simp add: m)
          then have "?rest = c # cs" using Cons by (simp add: drop_takeWhile_len)
          moreover have "takeWhile is_code_prefix_char t \<noteq> []" using k1 \<open>k = ?n\<close> by auto
          ultimately show ?thesis using False by simp
        qed
        then show ?thesis by (simp add: Cons rx_match_one_then_star_Cons)
      qed
    qed
    then have "rx_match code_prefix_re t = None" by (simp only: p)
    then show ?thesis using False by (auto simp: re_sub_bol_def drop_code_prefix_def Let_def)
  qed
qed

lemma rx_match_star_disjoint:
  assumes "\<And>k. k < length (takeWhile P s) \<Longrightarrow> rx_match q (drop k s) = None"
  shows "rx_match (Rep P 0 None # q) s =
           map_option ((#) (length (takeWhile P s))) (rx_match q (dropWhile P s))"
proof (cases "rx_match q (dropWhile P s)")
  case None
  have "rx_match (Rep P 0 None # q) s = None"
  proof (rule rx_match_Rep_None)
    fix k assume "k \<le> rep_max P None s"
    then have "k < length (takeWhile P s) \<or> k = length (takeWhile P s)"
      by (auto simp: rep_max_def)
    then show "rx_match q (drop k s) = None"
      using assms None by (auto simp: drop_takeWhile_len)
  qed
  then show ?thesis by (simp add: None)
next
  case (Some r)
  have "rx_match (Rep P 0 None # q) s = Some (rep_max P None s # r)"
    by (rule rx_match_Rep_greedy) (simp_all add: rep_max_def drop_takeWhile_len Some)
  then show ?thesis by (simp add: Some rep_max_def)
qed

lemma rx_match_one:
  "rx_match (Rep p (Suc 0) (Some (Suc 0)) # q) s =
     (case s of [] \<Rightarrow> None
      | c # cs \<Rightarrow> if p c then map_option ((#) (Suc 0)) (rx_match q cs) else None)"
  by (cases s) (auto simp: rx_match_Rep rep_max_def split: option.splits)

lemma rx_match_code_end:
  assumes "s \<noteq> [] \<longrightarrow> last s \<noteq> 10"
  shows "rx_match [Rep is_code_suffix_char (Suc 0) None, Eos] s =
           (if s \<noteq> [] \<and> list_all is_code_suffix_char s then Some [length s, 0] else None)"
proof (cases "s \<noteq> [] \<and> list_all is_code_suffix_char s")
  case True
  then have tw: "takeWhile is_code_suffix_char s = s" by (simp add: list_all_iff)
  have "rx_match (Rep is_code_suffix_char (Suc 0) None # [Eos]) s =
      Some (rep_max is_code_suffix_char None s # [0])"
  proof (rule rx_match_Rep_greedy)
    show "Suc 0 \<le> rep_max is_code_suffix_char None s"
      using True by (cases s) (simp_all add: rep_max_def tw)
    show "rx_match [Eos] (drop (rep_max is_code_suffix_char None s) s) = Some [0]"
      by (simp add: rep_max_def tw)
  qed
  then show ?thesis using True by (simp add: rep_max_def tw)
next
  case False
  have "rx_match (Rep is_code_suffix_char (Suc 0) None # [Eos]) s = None"
  proof (rule rx_match_Rep_None)
    fix k assume k1: "Suc 0 \<le> k" and kn: "k \<le> rep_max is_code_suffix_char None s"
    have "drop k s \<noteq> []"
    proof
      assume "drop k s = []"
      then have "length s \<le> k" by simp
      moreover have "length (takeWhile is_code_suffix_char s) \<le> length s"
        by (rule length_takeWhile_le)
      ultimately have "length (takeWhile is_code_suffix_char s) = length s"
        using kn by (simp add: rep_max_def)
      then have "takeWhile is_code_suffix_char s = s"
        by (metis takeWhile_eq_take take_all order_refl)
      then have "list_all is_code_suffix_char s"
        by (metis list_all_iff set_takeWhileD)
      moreover have "s \<noteq> []" using k1 \<open>length s \<le> k\<close> kn
        by (auto simp: rep_max_def)
      ultimately show False using False by simp
    qed
    moreover have "drop k s \<noteq> [10]"
    proof
      assume d: "drop k s = [10]"
      then have "s \<noteq> []" by auto
      moreover have "last s = last (drop k s)" using d by (metis last_drop drop_eq_Nil not_Cons_self2 not_le)
      ultimately show False using assms d by simp
    qed
    ultimately show "rx_match [Eos] (drop k s) = None" by simp
  qed
  then show ?thesis using False by auto
qed

lemma space_not_code: "py_isspace c \<Longrightarrow> \<not> is_code_suffix_char c"
  by (auto simp: py_isspace_def is_code_suffix_char_def is_alnum_ascii_def)

lemma space_not_slash: "py_isspace c \<Longrightarrow> c \<noteq> 47"
  by (auto simp: py_isspace_def)

lemma last_dropWhile: "dropWhile P s \<noteq> [] \<Longrightarrow> last (dropWhile P s) = last s"
  by (induction s) (auto split: if_splits)

lemma rx_match_space_code_end:
  assumes "s \<noteq> [] \<longrightarrow> last s \<noteq> 10"
  shows "rx_match [Rep py_isspace 0 None, Rep is_code_suffix_char (Suc 0) None, Eos] s =
           (if dropWhile py_isspace s \<noteq> [] \<and> list_all is_code_suffix_char (dropWhile py_isspace s)
            then Some [length (takeWhile py_isspace s), length (dropWhile py_isspace s), 0]
            else None)"
proof -
  let ?q = "[Rep is_code_suffix_char (Suc 0) None, Eos]"
  have dis: "\<And>k. k < length (takeWhile py_isspace s) \<Longrightarrow> rx_match ?q (drop k s) = None"
  proof -
    fix k assume k: "k < length (takeWhile py_isspace s)"
    then have "k < length s" using length_takeWhile_le [of py_isspace s] by simp
    then obtain c cs where d: "drop k s = c # cs" by (cases "drop k s") auto
    have "py_isspace c" using k d by (rule takeWhile_prefix_holds)
    then have "\<not> is_code_suffix_char c" by (rule space_not_code)
    then show "rx_match ?q (drop k s) = None"
      by (simp add: d rx_match_Rep rep_max_def)
  qed
  have l: "dropWhile py_isspace s \<noteq> [] \<longrightarrow> last (dropWhile py_isspace s) \<noteq> 10"
    using assms by (auto simp: last_dropWhile)
  show ?thesis
    by (simp add: rx_match_star_disjoint [OF dis] rx_match_code_end [OF l])
qed

lemma rx_match_code_suffix:
  assumes "s \<noteq> [] \<longrightarrow> last s \<noteq> 10"
  shows "rx_match code_suffix_re s =
           (if is_slash_code s
            then Some [length (takeWhile py_isspace s), Suc 0,
                       length (takeWhile py_isspace (tl (dropWhile py_isspace s))),
                       length (dropWhile py_isspace (tl (dropWhile py_isspace s))), 0]
            else None)"
proof -
  let ?q3 = "[Rep py_isspace 0 None, Rep is_code_suffix_char (Suc 0) None, Eos]"
  let ?q = "Rep (\<lambda>x. x = 47) (Suc 0) (Some (Suc 0)) # ?q3"
  have p: "code_suffix_re = Rep py_isspace 0 None # ?q"
    by (simp add: code_suffix_re_def star_def plus_def lit_def)
  have dis: "\<And>k. k < length (takeWhile py_isspace s) \<Longrightarrow> rx_match ?q (drop k s) = None"
  proof -
    fix k assume k: "k < length (takeWhile py_isspace s)"
    then have "k < length s" using length_takeWhile_le [of py_isspace s] by simp
    then obtain c cs where d: "drop k s = c # cs" by (cases "drop k s") auto
    have "py_isspace c" using k d by (rule takeWhile_prefix_holds)
    then have "c \<noteq> 47" by (rule space_not_slash)
    then show "rx_match ?q (drop k s) = None"
      by (simp add: d rx_match_one)
  qed
  have r: "rx_match code_suffix_re s =
      map_option ((#) (length (takeWhile py_isspace s))) (rx_match ?q (dropWhile py_isspace s))"
    by (simp only: p rx_match_star_disjoint [OF dis])
  show ?thesis
  proof (cases "dropWhile py_isspace s")
    case Nil
    show ?thesis
      unfolding r is_slash_code_def Nil by (simp add: rx_match_one)
  next
    case (Cons c cs)
    have "last (c # cs) = last s" using last_dropWhile [of py_isspace s] Cons by simp
    then have l: "cs \<noteq> [] \<longrightarrow> last cs \<noteq> 10" using assms Cons by auto
    show ?thesis
      unfolding r is_slash_code_def Cons
      by (simp add: rx_match_one rx_match_space_code_end [OF l])
  qed
qed

lemma length_takeWhile_dropWhile: "length (takeWhile P s) + length (dropWhile P s) = length s"
  by (metis length_append takeWhile_dropWhile_id)

lemma slash_code_consumes_all:
  assumes "is_slash_code s"
  shows "sum_list [length (takeWhile py_isspace s), Suc 0,
                   length (takeWhile py_isspace (tl (dropWhile py_isspace s))),
                   length (dropWhile py_isspace (tl (dropWhile py_isspace s))), 0] = length s"
proof -
  from assms obtain c cs where d: "dropWhile py_isspace s = c # cs"
    by (cases "dropWhile py_isspace s") (auto simp: is_slash_code_def)
  have "length (takeWhile py_isspace s) + Suc (length cs) = length s"
    using length_takeWhile_dropWhile [of py_isspace s] by (simp add: d)
  moreover have "length (takeWhile py_isspace cs) + length (dropWhile py_isspace cs) = length cs"
    by (rule length_takeWhile_dropWhile)
  ultimately show ?thesis by (simp add: d)
qed

lemma re_sub_code_suffix:
  assumes "t \<noteq> [] \<longrightarrow> last t \<noteq> 10"
  shows "re_sub code_suffix_re t = drop_code_suffix t"
  using assms
proof (induction t)
  case Nil
  then show ?case by simp
next
  case (Cons c cs)
  then have l: "c # cs \<noteq> [] \<longrightarrow> last (c # cs) \<noteq> 10" by simp
  from Cons have ih: "re_sub code_suffix_re cs = drop_code_suffix cs" by (cases cs) auto
  show ?case
  proof (cases "is_slash_code (c # cs)")
    case True
    have "sum_list [length (takeWhile py_isspace (c # cs)), Suc 0,
                   length (takeWhile py_isspace (tl (dropWhile py_isspace (c # cs)))),
                   length (dropWhile py_isspace (tl (dropWhile py_isspace (c # cs)))), 0]
          = Suc (length cs)"
      using slash_code_consumes_all [OF True] by simp
    then show ?thesis
      by (simp only: re_sub.simps rx_match_code_suffix [OF l] True if_True option.case
          nat.case drop_all order_refl drop_code_suffix.simps)
  next
    case False
    then show ?thesis
      by (simp add: rx_match_code_suffix [OF l] ih)
  qed
qed

lemma strip_last: "strip s \<noteq> [] \<Longrightarrow> \<not> py_isspace (last (strip s))"
proof -
  assume a: "strip s \<noteq> []"
  let ?r = "dropWhile py_isspace (rev (dropWhile py_isspace s))"
  have ne: "?r \<noteq> []" using a by (simp add: strip_def)
  have "last (strip s) = hd ?r" using ne by (simp add: strip_def last_rev)
  moreover have "\<not> py_isspace (hd ?r)" using ne by (rule hd_dropWhile)
  ultimately show ?thesis by simp
qed

lemma strip_no_newline: "strip s \<noteq> [] \<longrightarrow> last (strip s) \<noteq> 10"
proof
  assume "strip s \<noteq> []"
  then have "\<not> py_isspace (last (strip s))" by (rule strip_last)
  moreover have "py_isspace 10" by (simp add: py_isspace_def)
  ultimately show "last (strip s) \<noteq> 10" by metis
qed

lemma normalize_title_refines: "normalize_title raw_title = normalize_title_spec raw_title"
  by (cases raw_title)
    (simp_all add: normalize_title_def normalize_title_spec_def Let_def re_sub_bol_performer
      re_sub_bol_code_prefix re_sub_code_suffix [OF strip_no_newline])

lemmas title_spec_defs = normalize_title_spec_def drop_performer_prefix_def drop_code_prefix_def
  is_slash_code_def strip_def py_isspace_def is_dash_def is_blank_def is_colon_def
  is_code_prefix_char_def is_code_suffix_char_def is_alnum_ascii_def U_def Let_def

lemma normalize_title_spec_example:
  "normalize_title_spec (Some example_title) = Some (U ''Scene Title'')"
  by (simp add: title_spec_defs example_title_def)

lemma normalize_title_spec_abc:
  "normalize_title_spec (Some (U ''A - B - C'')) = Some (U ''B - C'')"
  "normalize_title_spec (Some (U ''B - C'')) = Some (U ''C'')"
  by (simp_all add: title_spec_defs)

text \<open>
  Claim C8. For every raw title, \<open>normalize_title\<close> strips, in this order, a leading
  performer prefix ending in one of the three dash variants, then a trailing \<open>" / CODE"\<close>
  suffix, then a leading \<open>"CODE:"\<close> or \<open>"CODE\<close>(U+FF1A)\<open>"\<close> prefix (with \<open>strip\<close> before
  and after each step); the example title of the specification normalises to
  \<open>"Scene Title"\<close>.
\<close>

theorem normalize_title_order:
  "normalize_title raw_title = normalize_title_spec raw_title \<and>
   normalize_title (Some example_title) = Some (U ''Scene Title'')"
  by (simp add: normalize_title_refines normalize_title_spec_example)

theorem normalize_title_order_witness:
  "normalize_title_spec (Some example_title) = Some (U ''Scene Title'')"
  using normalize_title_order [of "Some example_title"] by metis

text \<open>
  The claim as stated (every title in the range of \<open>normalize_title\<close> is a fixed point)
  fails: \<open>"B - C"\<close> is the normal form of \<open>"A - B - C"\<close>, and normalises to \<open>"C"\<close>.
\<close>

theorem normalize_title_not_idempotent_counterexample:
  "normalize_title (normalize_title (Some (U ''A - B - C''))) \<noteq>
   normalize_title (Some (U ''A - B - C''))"
  by (simp add: normalize_title_refines normalize_title_spec_abc) (simp add: U_def)

lemma strip_id: "s \<noteq> [] \<Longrightarrow> \<not> py_isspace (hd s) \<Longrightarrow> \<not> py_isspace (last s) \<Longrightarrow> strip s = s"
proof -
  assume a: "s \<noteq> []" "\<not> py_isspace (hd s)" "\<not> py_isspace (last s)"
  then have 1: "dropWhile py_isspace s = s" by (cases s) auto
  have "rev s \<noteq> []" "\<not> py_isspace (hd (rev s))" using a by (simp_all add: hd_rev)
  then have 2: "dropWhile py_isspace (rev s) = rev s" by (cases "rev s") auto
  show ?thesis by (simp add: strip_def 1 2)
qed

lemma drop_code_suffix_no_slash: "\<forall>c\<in>set s. c \<noteq> 47 \<Longrightarrow> drop_code_suffix s = s"
proof (induction s)
  case Nil
  then show ?case by simp
next
  case (Cons c cs)
  have "\<not> is_slash_code (c # cs)"
  proof (cases "dropWhile py_isspace (c # cs)")
    case Nil
    then show ?thesis unfolding is_slash_code_def by simp
  next
    case d: (Cons x xs)
    then have "x \<in> set (c # cs)" by (metis list.set_intros(1) set_dropWhileD)
    then have "x \<noteq> 47" using Cons.prems by blast
    then show ?thesis unfolding is_slash_code_def d by simp
  qed
  then show ?case using Cons by simp
qed

lemma drop_code_prefix_no_colon: "\<forall>c\<in>set s. \<not> is_colon c \<Longrightarrow> drop_code_prefix s = s"
proof -
  assume a: "\<forall>c\<in>set s. \<not> is_colon c"
  have "dropWhile is_code_prefix_char s \<noteq> [] \<Longrightarrow> \<not> is_colon (hd (dropWhile is_code_prefix_char s))"
  proof -
    assume "dropWhile is_code_prefix_char s \<noteq> []"
    then have "hd (dropWhile is_code_prefix_char s) \<in> set s"
      by (metis hd_in_set set_dropWhileD)
    then show ?thesis using a by blast
  qed
  then show ?thesis by (auto simp: drop_code_prefix_def Let_def)
qed

lemma drop_performer_prefix_no_dash: "\<forall>c\<in>set s. \<not> is_dash c \<Longrightarrow> drop_performer_prefix s = s"
  by (simp add: drop_performer_prefix_def Let_def)

text \<open>
  Claim C9 (as amended). \<open>normalize_title\<close> leaves unchanged every non-empty title that
  has no white space at either end and contains no dash variant, no slash and no colon
  variant, such as \<open>"Scene Title"\<close>.
\<close>

theorem normalize_title_plain:
  assumes "plain_title t"
  shows "normalize_title (Some t) = Some t"
proof -
  from assms have ne: "t \<noteq> []" and st: "strip t = t"
    by (simp_all add: plain_title_def strip_id)
  from assms have "\<forall>c\<in>set t. \<not> is_dash c" "\<forall>c\<in>set t. c \<noteq> 47" "\<forall>c\<in>set t. \<not> is_colon c"
    by (simp_all add: plain_title_def list_all_iff)
  then have "drop_performer_prefix t = t" "drop_code_suffix t = t" "drop_code_prefix t = t"
    by (simp_all add: drop_performer_prefix_no_dash drop_code_suffix_no_slash
        drop_code_prefix_no_colon)
  then show ?thesis
    using ne by (simp add: normalize_title_refines normalize_title_spec_def st)
qed

theorem normalize_title_plain_witness:
  "plain_title (U ''Scene Title'') \<and>
   normalize_title (Some (U ''Scene Title'')) = Some (U ''Scene Title'')"
proof -
  have p: "plain_title (U ''Scene Title'')"
    by (simp add: plain_title_def py_isspace_def is_dash_def is_colon_def U_def)
  from normalize_title_plain [OF p] p show ?thesis by simp
qed

subsection \<open>Session freshness\<close>

lemma bit_length_le: "n < 2 ^ k \<Longrightarrow> bit_length n \<le> k"
proof (induction k arbitrary: n)
  case 0
  then show ?case by (simp add: bit_length.simps)
next
  case (Suc k)
  from Suc.prems have "n div 2 < 2 ^ k" by simp
  from Suc.IH [OF this] show ?case by (subst bit_length.simps) simp
qed

lemma bit_length_eq: "2 ^ k \<le> n \<Longrightarrow> n < 2 ^ Suc k \<Longrightarrow> bit_length n = Suc k"
proof (induction k arbitrary: n)
  case 0
  then have "n = 1" by simp
  then show ?case by (simp add: bit_length.simps)
next
  case (Suc k)
  from Suc.prems have "2 ^ k \<le> n div 2" "n div 2 < 2 ^ Suc k" "n \<noteq> 0" by auto
  from Suc.IH [OF this(1,2)] this(3) show ?case by (subst bit_length.simps) simp
qed

lemma round_float_exact:
  assumes "\<bar>D\<bar> < 2 ^ 53" and "- 1074 \<le> e" and "e \<le> 0"
  shows "round_float D e = Finite D e"
proof -
  from assms(1) have "nat \<bar>D\<bar> < 2 ^ 53" by (simp add: nat_less_iff)
  then have "bit_length (nat \<bar>D\<bar>) \<le> 53" by (rule bit_length_le)
  then have q: "max (e + int (bit_length (nat \<bar>D\<bar>)) - 53) (- 1074) \<le> e"
    using assms(2) by simp
  have "finite_or_inf D e = Finite D e"
  proof (cases "e = 0")
    case True
    from assms(1) have "\<not> (2 :: int) ^ 1024 \<le> \<bar>D\<bar>" by simp
    with True show ?thesis by (simp add: finite_or_inf_def)
  next
    case False
    with assms(3) show ?thesis by (simp add: finite_or_inf_def)
  qed
  with q show ?thesis by (simp add: round_float_def Let_def)
qed




lemma epoch_seconds_exact:
  assumes "epoch_seconds m e" and "0 \<le> ts" and "ts < 2 ^ 31"
  shows "exact_difference m e ts"
proof -
  from assms(1) have e: "- 22 \<le> e" "e \<le> 0" and m: "0 \<le> m" "m < 2 ^ (31 + nat (- e))"
    by (simp_all add: epoch_seconds_def)
  from e have k: "nat (- e) \<le> 22" by simp
  have p: "(2 :: int) ^ (31 + nat (- e)) \<le> 2 ^ 53"
    using k by (intro power_increasing) simp_all
  have "ts * 2 ^ nat (- e) < 2 ^ 31 * 2 ^ nat (- e)"
    using assms(3) by simp
  then have t: "ts * 2 ^ nat (- e) < 2 ^ (31 + nat (- e))" by (simp add: power_add)
  have t0: "0 \<le> ts * 2 ^ nat (- e)" using assms(2) by simp
  from m t t0 p have "\<bar>m - ts * 2 ^ nat (- e)\<bar> < 2 ^ 53" by linarith
  moreover from assms(2,3) have "\<bar>ts\<bar> < 2 ^ 53" by simp
  ultimately show ?thesis using e by (simp add: exact_difference_def)
qed


text \<open>
  Where doubles round, the comparison is no longer the one of the exact numbers: with
  the clock at \<open>2 ^ 60\<close> a session stamped 3601 seconds earlier is taken to be 3584
  seconds old.
\<close>

lemma float_sub_int_rounds:
  "float_sub_int (Finite (2 ^ 60) 0) (2 ^ 60 - 3601) = Inr (Finite 3584 0)"
proof -
  have "bit_length (nat \<bar>2 ^ 60 - 3601 :: int\<bar>) = Suc 59"
    by (rule bit_length_eq) simp_all
  then have "round_float (2 ^ 60 - 3601) 0 = Finite (2 ^ 53 - 28) 7"
    by (simp add: round_float_def round_half_even_def finite_or_inf_def)
  then have a: "int_to_float (2 ^ 60 - 3601) = Inr (Finite (2 ^ 53 - 28) 7)"
    by (simp add: int_to_float_def)
  have "float_sub (Finite (2 ^ 60) 0) (Finite (2 ^ 53 - 28) 7) = round_float 3584 0"
    by simp
  also have "\<dots> = Finite 3584 0"
    by (rule round_float_exact) simp_all
  finally show ?thesis
    using a by (simp add: float_sub_int_def)
qed




subsection \<open>Reading the input fragment\<close>

text \<open>
  The Gravurefit scraper prints \<open>{}\<close> and returns when its input is no JSON, and when it
  is an object without a usable URL.
\<close>

lemma gravurefit_bad_input_empty_output:
  "gravurefit_main_input None = Exit0 [JDict []]"
  "\<not> truthy (dict_get d (U ''url'')) \<Longrightarrow> gravurefit_main_input (Some (JDict d)) = Exit0 [JDict []]"
  by (simp_all add: gravurefit_main_input_def)

text \<open>
  Claim C1. On bad input a scraper is to print \<open>{}\<close> and exit 0, and never to raise. The
  JavLibrary scraper parses its input with no handler around it: input that is no JSON
  ends the run with the exception. The Gravurefit scraper, which does catch that, calls
  \<open>get\<close> on whatever JSON value it read: the input \<open>[]\<close> ends the run with
  \<open>AttributeError\<close>. And under \<open>validSearch\<close> the JavLibrary scraper leaves without
  printing anything when the fragment has no URL.
\<close>

theorem bad_input_uncaught:
  "javlibrary_input [] None = Uncaught JSONDecodeError \<and>
   gravurefit_main_input (Some (JList [])) = Uncaught AttributeError \<and>
   javlibrary_input [U ''validSearch''] (Some (JDict [])) = Exit0 []"
  by (simp add: gravurefit_main_input_def javlibrary_input_def dict_get_def dict_get_default_def)

subsection \<open>Date extraction\<close>

lemma first_some_weak_cong:
  "ks = ks' \<Longrightarrow> first_some f ks = first_some f ks'"
  by simp

lemmas date_eval_defs =
  iso_matches_def localized_matches_def iso_regex_def date_regex_def is_digit_def
  example_runtime_def decimal_ascii_def lit_def star_def U_def py_isspace_def rx_match.simps

lemma iso_matches_invalid: "iso_matches example_runtime (U ''2019-02-30'') = [U ''2019-02-30'']"
  by (simp add: date_eval_defs cong: first_some_weak_cong)

lemma localized_matches_invalid: "localized_matches example_runtime (U ''2019-02-30'') = []"
  by (simp add: date_eval_defs cong: first_some_weak_cong)

lemmas date_calc_defs =
  valid_date_def days_in_month_def leap_def is_ascii_digit_def zfill_def nat_digits.simps U_def
  split_iso_def int_digits_def example_runtime_def decimal_ascii_def

text \<open>
  Claim C3. A match that is no calendar date is to be skipped. The JavLibrary scraper
  checks the localized matches and takes every ISO match as it stands: on the text
  \<open>2019-02-30\<close> it returns \<open>2019-02-30\<close>, where the Gravurefit scraper, which builds a
  date from each ISO match, returns nothing.
\<close>

theorem iso_date_not_validated:
  "find_earliest_date_from_text example_runtime (U ''2019-02-30'') = Some (U ''2019-02-30'') \<and>
   \<not> valid_date (2019, 2, 30) \<and>
   find_earliest_date_in_text example_runtime (U ''2019-02-30'') = None"
proof -
  have v: "\<not> valid_date (2019, 2, 30)"
    by (simp add: valid_date_def days_in_month_def leap_def)
  have a: "find_earliest_date_from_text example_runtime (U ''2019-02-30'') =
      Some (U ''2019-02-30'')"
    unfolding find_earliest_date_from_text_def iso_matches_invalid localized_matches_invalid
    by (simp add: date_calc_defs)
  have b: "find_earliest_date_in_text example_runtime (U ''2019-02-30'') = None"
    unfolding find_earliest_date_in_text_def iso_matches_invalid localized_matches_invalid
    by (simp add: date_calc_defs)
  from a v b show ?thesis by simp
qed

lemma iso_matches_example:
  "iso_matches example_runtime example_dates_text = [U ''2019-05-01'']"
  by (simp add: example_dates_text_def date_eval_defs cong: first_some_weak_cong)

lemma localized_matches_example:
  "localized_matches example_runtime example_dates_text = [(2019, 3, 1)]"
  by (simp add: example_dates_text_def date_eval_defs int_digits_def cong: first_some_weak_cong)

lemma earliest_date_example:
  "find_earliest_date_in_text example_runtime example_dates_text = Some (U ''2019-03-01'')"
  "find_earliest_date_from_text example_runtime example_dates_text = Some (U ''2019-03-01'')"
proof -
  have n: "example_dates_text \<noteq> []" by (simp add: example_dates_text_def U_def)
  show "find_earliest_date_in_text example_runtime example_dates_text = Some (U ''2019-03-01'')"
    unfolding find_earliest_date_in_text_def iso_matches_example localized_matches_example
    by (simp add: date_calc_defs)
  show "find_earliest_date_from_text example_runtime example_dates_text = Some (U ''2019-03-01'')"
    unfolding find_earliest_date_from_text_def iso_matches_example localized_matches_example
    by (simp add: n date_calc_defs)
qed

text \<open>
  The Gravurefit extractor does what the claim says: its result is the rendering of a
  valid date among the matches that no valid match precedes.
\<close>

lemma find_earliest_date_in_text_earliest:
  assumes "find_earliest_date_in_text L text = Some r"
  shows "\<exists>y m d. r = strftime_Y L y @ U ''-'' @ zfill 2 (nat_digits m) @ U ''-'' @ zfill 2 (nat_digits d)
           \<and> valid_date (y, m, d)
           \<and> (\<forall>x \<in> set (localized_matches L text) \<union>
                     set (map (split_iso L)
                       (filter (list_all (\<lambda>c. is_ascii_digit c \<or> c = 45)) (iso_matches L text))).
                  valid_date x \<longrightarrow> (y, m, d) \<le> x)"
proof -
  define dates where "dates = filter valid_date (localized_matches L text) @
      filter valid_date (map (split_iso L)
        (filter (list_all (\<lambda>c. is_ascii_digit c \<or> c = 45)) (iso_matches L text)))"
  from assms have ne: "dates \<noteq> []"
    by (auto simp: find_earliest_date_in_text_def dates_def Let_def split: if_splits)
  obtain y m d where ymd: "min_list dates = (y, m, d)" by (cases "min_list dates")
  from ne have mn: "min_list dates = Min (set dates)" by (rule min_list_Min)
  from ne have "Min (set dates) \<in> set dates" by (intro Min_in) simp_all
  with mn ymd have mem: "(y, m, d) \<in> set dates" by simp
  have le: "(y, m, d) \<le> x" if "x \<in> set dates" for x
    using that mn ymd by (metis List.finite_set Min_le)
  from assms ne ymd have r: "r = strftime_Y L y @ U ''-'' @ zfill 2 (nat_digits m) @ U ''-'' @
      zfill 2 (nat_digits d)"
    by (simp add: find_earliest_date_in_text_def dates_def [symmetric] Let_def)
  from mem have "valid_date (y, m, d)" by (auto simp: dates_def)
  moreover have "\<forall>x \<in> set (localized_matches L text) \<union>
      set (map (split_iso L)
        (filter (list_all (\<lambda>c. is_ascii_digit c \<or> c = 45)) (iso_matches L text))).
      valid_date x \<longrightarrow> (y, m, d) \<le> x"
  proof (intro ballI impI)
    fix x assume "x \<in> set (localized_matches L text) \<union>
      set (map (split_iso L)
        (filter (list_all (\<lambda>c. is_ascii_digit c \<or> c = 45)) (iso_matches L text)))"
      and "valid_date x"
    then have "x \<in> set dates" by (auto simp: dates_def)
    then show "(y, m, d) \<le> x" by (rule le)
  qed
  ultimately show ?thesis using r by blast
qed

subsection \<open>HTML field extractor\<close>

lemma strip_hd: "strip s \<noteq> [] \<Longrightarrow> \<not> py_isspace (hd (strip s))"
proof -
  assume a: "strip s \<noteq> []"
  let ?a = "dropWhile py_isspace s"
  have "?a = rev (dropWhile py_isspace (rev ?a)) @ rev (takeWhile py_isspace (rev ?a))"
    by (metis rev_append rev_rev_ident takeWhile_dropWhile_id)
  then have d: "?a = strip s @ rev (takeWhile py_isspace (rev ?a))"
    unfolding strip_def .
  from a d have "hd ?a = hd (strip s)" by (metis hd_append2)
  moreover from a d have "?a \<noteq> []" by (metis Nil_is_append_conv)
  then have "\<not> py_isspace (hd ?a)" by (rule hd_dropWhile)
  ultimately show ?thesis by simp
qed

lemma strip_idem: "strip (strip s) = strip s"
proof (cases "strip s = []")
  case True
  have "strip [] = []" by (simp add: strip_def)
  with True show ?thesis by simp
next
  case False
  then show ?thesis by (intro strip_id strip_hd strip_last)
qed

lemma stripped_nonempty_clean:
  "list_all (\<lambda>x. case x of JStr s \<Rightarrow> s \<noteq> [] \<and> strip s = s | _ \<Rightarrow> False)
     (map JStr (stripped_nonempty xs))"
  by (induction xs) (simp_all add: stripped_nonempty_def strip_idem)

lemma dedupe_set: "set (dedupe ts seen acc) \<subseteq> set acc \<union> set ts"
  by (induction ts seen acc rule: dedupe.induct) auto

lemma dedupe_distinct:
  "distinct acc \<Longrightarrow> set acc \<subseteq> seen \<Longrightarrow> distinct (dedupe ts seen acc)"
  by (induction ts seen acc rule: dedupe.induct) auto

lemma dedupe_clean:
  "list_all (\<lambda>x. case x of JStr s \<Rightarrow> s \<noteq> [] \<and> strip s = s | _ \<Rightarrow> False)
     (map JStr (dedupe (stripped_nonempty xs @ stripped_nonempty ys) {} []))"
proof -
  have "set (dedupe (stripped_nonempty xs @ stripped_nonempty ys) {} []) \<subseteq>
      set (stripped_nonempty xs) \<union> set (stripped_nonempty ys)"
    using dedupe_set [of "stripped_nonempty xs @ stripped_nonempty ys" "{}" "[]"] by simp
  moreover have "t \<noteq> [] \<and> strip t = t" if "t \<in> set (stripped_nonempty zs)" for t zs
    using that by (auto simp: stripped_nonempty_def strip_idem)
  ultimately show ?thesis by (auto simp: list_all_iff)
qed

lemma gravure_fields_invariant:
  "map fst (gravure_fields find_date base L doc) = field_keys \<and>
   clean_strings (dict_get (gravure_fields find_date base L doc) (U ''performers'')) \<and>
   clean_strings (dict_get (gravure_fields find_date base L doc) (U ''tags'')) \<and>
   no_duplicates (dict_get (gravure_fields find_date base L doc) (U ''tags''))"
proof -
  have k: "U ''performers'' \<noteq> U ''title_raw''" "U ''performers'' \<noteq> U ''title''"
    "U ''performers'' \<noteq> U ''details''" "U ''performers'' \<noteq> U ''date''"
    "U ''tags'' \<noteq> U ''title_raw''" "U ''tags'' \<noteq> U ''title''" "U ''tags'' \<noteq> U ''details''"
    "U ''tags'' \<noteq> U ''date''" "U ''tags'' \<noteq> U ''performers''"
    by (simp_all add: U_def)
  have p: "dict_get (gravure_fields find_date base L doc) (U ''performers'') =
      JList (map JStr (stripped_nonempty (or_list (actress_links doc) (profile_links doc))))"
    using k by (simp add: gravure_fields_def dict_get_def dict_get_default_def Let_def)
  have t: "dict_get (gravure_fields find_date base L doc) (U ''tags'') =
      JList (map JStr (dedupe (stripped_nonempty (theme_links doc) @
        stripped_nonempty (play_links doc)) {} []))"
    using k by (simp add: gravure_fields_def dict_get_def dict_get_default_def Let_def)
  have d: "distinct (map JStr (dedupe (stripped_nonempty (theme_links doc) @
        stripped_nonempty (play_links doc)) {} []))"
    by (simp add: distinct_map dedupe_distinct inj_on_def)
  show ?thesis
    unfolding p t
    by (simp add: clean_strings_def no_duplicates_def stripped_nonempty_clean dedupe_clean d)
      (simp add: gravure_fields_def field_keys_def Let_def)
qed

text \<open>
  Claim C10. The extractor of either scraper returns the empty mapping, and then the
  text did not parse, or a mapping with exactly the nine keys in which \<open>performers\<close> and
  \<open>tags\<close> are lists of non-empty stripped strings and \<open>tags\<close> has no duplicates.
\<close>

theorem extract_fields_invariant:
  "(extract_gravure_fields L h = [] \<and> fromstring L h = None \<or>
    map fst (extract_gravure_fields L h) = field_keys \<and>
    clean_strings (dict_get (extract_gravure_fields L h) (U ''performers'')) \<and>
    clean_strings (dict_get (extract_gravure_fields L h) (U ''tags'')) \<and>
    no_duplicates (dict_get (extract_gravure_fields L h) (U ''tags''))) \<and>
   (javlibrary_extract_gravure_fields L h = [] \<and> fromstring L h = None \<or>
    map fst (javlibrary_extract_gravure_fields L h) = field_keys \<and>
    clean_strings (dict_get (javlibrary_extract_gravure_fields L h) (U ''performers'')) \<and>
    clean_strings (dict_get (javlibrary_extract_gravure_fields L h) (U ''tags'')) \<and>
    no_duplicates (dict_get (javlibrary_extract_gravure_fields L h) (U ''tags'')))"
proof (cases "fromstring L h")
  case None
  then show ?thesis
    by (simp add: extract_gravure_fields_def javlibrary_extract_gravure_fields_def)
next
  case (Some doc)
  then show ?thesis
    using gravure_fields_invariant [of "find_earliest_date_in_text L" BASE_SITE L doc]
      gravure_fields_invariant [of "find_earliest_date_from_text L" "U ''https://www.gravurefit.com''" L doc]
    by (simp add: extract_gravure_fields_def javlibrary_extract_gravure_fields_def)
qed

text \<open>
  The extractor of the Gravurefit scraper on a page: the performers come from the
  fallback query, the tag given twice is kept once, where it first stands, the
  protocol-relative image address gets its scheme, and the code is read off the
  canonical address.
\<close>

lemma extract_example_fields:
  "dict_get (extract_gravure_fields page_runtime (U ''<html>'')) (U ''performers'') =
     JList [JStr (U ''Hitomi'')]"
  "dict_get (extract_gravure_fields page_runtime (U ''<html>'')) (U ''tags'') =
     JList [JStr (U ''beach''), JStr (U ''sun''), JStr (U ''swim'')]"
  "dict_get (extract_gravure_fields page_runtime (U ''<html>'')) (U ''image'') =
     JStr (U ''https://img.gravurefit.com/a.jpg'')"
  "dict_get (extract_gravure_fields page_runtime (U ''<html>'')) (U ''details'') =
     JStr (U ''A day at the beach.'')"
  "dict_get (extract_gravure_fields page_runtime (U ''<html>'')) (U ''studio'') = JNull"
  "extract_gravure_fields page_runtime [] = []"
  by (simp_all add: extract_gravure_fields_def page_runtime_def example_page_def
      gravure_fields_def dict_get_def dict_get_default_def or_list_def stripped_nonempty_def
      strip_def py_isspace_def first_stripped_def opt_str_def absolute_image_def pick_image_def
      U_def)

lemma extract_example_code:
  "extract_code page_runtime example_page = JStr (U ''ABC-123'')"
  by (simp add: extract_code_def page_runtime_def example_page_def or_list_def code_regex_def
      is_alpha_ascii_def is_digit_def decimal_ascii_def upper_ascii_def lit_def star_def U_def
      rx_match.simps cong: first_some_weak_cong)

end
